theory Spec2Isabelle
  imports Complex_Main
begin

section \<open>Notification channel and effect trace\<close>

text \<open>
  The worker and the encoding helper talk to the front end through
  \<open>write_event_value(key, value)\<close>, which puts the pair on \<open>update_queue\<close>.
  A notification is one such pair: the constructor is the key
  (\<open>-SET_MAX-\<close>, \<open>-PROGRESS_UPDATE-\<close>, \<open>-STATUS_UPDATE-\<close>, \<open>-ERROR-\<close>,
  \<open>-THREAD_DONE-\<close>), the argument is the value.  The values that the source
  builds with an f-string are kept as the template (a constructor) together with
  the interpolated arguments, in the order of the f-string.

  An exception value stands for what \<open>str(e)\<close> is formatted from.
\<close>

datatype exc =
    Exc string                    \<comment> \<open>raised by an external collaborator, with its text\<close>
  | InvalidIntLiteral string      \<comment> \<open>\<open>ValueError\<close> of \<open>int(s)\<close>\<close>
  | UnknownKey string             \<comment> \<open>\<open>KeyError\<close> of a dict lookup\<close>
  | NeedAtLeastOneArray           \<comment> \<open>\<open>np.stack\<close> of an empty sequence\<close>
  | ArraysNotSameShape            \<comment> \<open>\<open>np.stack\<close> of arrays of different shapes\<close>
  | CannotBroadcast               \<comment> \<open>element-wise operation on incompatible shapes\<close>
  | ZeroSizeReduction string      \<comment> \<open>\<open>.max()\<close> / \<open>.min()\<close> of an array without elements\<close>

datatype error_text =
    InvalidInputPath string           \<comment> \<open>\<open>Input path must be a valid file or directory: {input_folder}\<close>\<close>
  | InvalidSizeType                   \<comment> \<open>\<open>Internal Error: Invalid Input Size or Max Resolution type.\<close>\<close>
  | NoVideoFiles                      \<comment> \<open>\<open>No video files found in the input folder\<close>\<close>
  | NoInputSelected                   \<comment> \<open>\<open>Logic Error: No input selected.\<close>\<close>
  | CheckpointNotFound string         \<comment> \<open>\<open>Checkpoint file for {encoder} not found in ./checkpoints/\<close>\<close>
  | ModelLoadError exc                \<comment> \<open>\<open>Error loading model: {str(e)}\<close>\<close>
  | ReadFramesError string exc        \<comment> \<open>\<open>Error reading video frames for {basename}: {str(e)}\<close>\<close>
  | InferenceError string exc         \<comment> \<open>\<open>Error during depth inference for {basename}: {str(e)}\<close>\<close>
  | SaveOutputsError string exc       \<comment> \<open>\<open>Error saving outputs for {basename}: {str(e)}\<close>\<close>
  | MoveError string exc              \<comment> \<open>\<open>Failed to move {file_path} to finished folder: {str(e)}\<close>\<close>
  | UnknownCodecMode string           \<comment> \<open>\<open>Internal error: Unknown codec mode '{codec_mode}'\<close>\<close>
  | FFmpegError string "string list" int string
      \<comment> \<open>\<open>FFmpeg Error for {basename}: Command: ... Return Code: ... Stderr: ...\<close>\<close>
  | FFmpegNotFound                    \<comment> \<open>\<open>FFmpeg executable not found. ...\<close>\<close>
  | EncodingUnexpected string         \<comment> \<open>\<open>An unexpected error occurred during encoding: {str(e)}\<close>\<close>

datatype status_text =
    LoadingModel                      \<comment> \<open>\<open>Loading model...\<close>\<close>
  | ProcessingFile nat nat string     \<comment> \<open>\<open>Processing file {i+1} of {total_files}: {basename}\<close>\<close>
  | EncodingComplete string           \<comment> \<open>\<open>Encoding complete: {basename}\<close>\<close>

datatype terminal_reason = Stopped | Completed

datatype notification =
    SET_MAX nat
  | PROGRESS_UPDATE nat
  | STATUS_UPDATE status_text
  | ERROR error_text
  | THREAD_DONE terminal_reason

section \<open>Path and string helpers of the Python library (POSIX flavour)\<close>

definition sep :: char where
  "sep = CHR ''/''"

text \<open>\<open>os.path.basename(p)\<close>: the part after the last separator.\<close>

definition basename :: "string \<Rightarrow> string" where
  "basename p = rev (takeWhile (\<lambda>c. c \<noteq> sep) (rev p))"

text \<open>\<open>os.path.join(a, b)\<close> for two components.\<close>

definition path_join :: "string \<Rightarrow> string \<Rightarrow> string" where
  "path_join a b =
     (if b \<noteq> [] \<and> hd b = sep then b
      else if a = [] \<or> last a = sep then a @ b
      else a @ [sep] @ b)"

text \<open>\<open>str(n)\<close> for a Python integer.\<close>

fun str_nat :: "nat \<Rightarrow> string" where
  "str_nat n =
     (if n < 10 then [''0123456789'' ! n]
      else str_nat (n div 10) @ [''0123456789'' ! (n mod 10)])"

declare str_nat.simps [simp del]

definition str_int :: "int \<Rightarrow> string" where
  "str_int i = (if i < 0 then CHR ''-'' # str_nat (nat (- i)) else str_nat (nat i))"

section \<open>The external encoding helper: \<open>run_h26x_encoding\<close>\<close>

text \<open>
  What \<open>subprocess.run(command, check=True, ...)\<close> can do: return, raise
  \<open>CalledProcessError\<close> (non-zero exit: return code and stderr), raise
  \<open>FileNotFoundError\<close> (no executable), or raise anything else.
\<close>

datatype run_result =
    RunOk
  | CalledProcessError int string
  | FileNotFoundError
  | OtherException string

text \<open>
  The observable effects of the helper, in order: a notification handed to
  the callback, or a subprocess started with a command line.
\<close>

datatype h26x_event = Callback notification | SubprocessRun "string list"

text \<open>
  \<open>codec_map\<close>: codec mode key to \<open>(codec, profile, pix_fmt, is_10bit)\<close>.
  A key outside the table is the \<open>KeyError\<close> branch (\<open>None\<close>).
\<close>

definition codec_map :: "string \<Rightarrow> (string \<times> string \<times> string \<times> bool) option" where
  "codec_map codec_mode =
     (if codec_mode = ''libx264 (8-bit)'' then Some (''libx264'', ''high'', ''yuv420p'', False)
      else if codec_mode = ''libx265 (10-bit)'' then Some (''libx265'', ''main10'', ''yuv420p10le'', True)
      else if codec_mode = ''nvenc_h264 (8-bit)'' then Some (''h264_nvenc'', ''high'', ''yuv420p'', False)
      else if codec_mode = ''nvenc_h265 (10-bit)'' then Some (''hevc_nvenc'', ''main10'', ''yuv420p10le'', True)
      else None)"

definition input_args :: "string \<Rightarrow> int \<Rightarrow> string list" where
  "input_args input_dir fps =
     [''-y'', ''-i'', path_join input_dir ''frame_%05d.png'', ''-r'', str_int fps]"

definition filter_args :: "bool \<Rightarrow> string list" where
  "filter_args invert_vis =
     (if invert_vis then [''-vf'', ''format=gray, lut=curve=opposit'']
      else [''-vf'', ''format=gray''])"

definition output_args ::
  "string \<Rightarrow> string \<Rightarrow> string \<Rightarrow> bool \<Rightarrow> int \<Rightarrow> string \<Rightarrow> string list" where
  "output_args codec profile pix_fmt is_10bit crf output_path =
     [''-vcodec'', codec, ''-pix_fmt'', pix_fmt, ''-crf'', str_int crf,
      ''-profile:v'', profile, ''-tag:v'', (if is_10bit then ''hvc1'' else ''avc1''),
      output_path]"

text \<open>
  \<open>run_h26x_encoding(input_dir, output_path, codec_mode, fps, crf, invert_vis,
  write_event_value)\<close>.  The subprocess is a parameter (what running a command
  line does); \<open>fps\<close> and \<open>crf\<close> are Python integers.  Logging is not part of
  the trace.
\<close>

definition run_h26x_encoding ::
  "(string list \<Rightarrow> run_result) \<Rightarrow> string \<Rightarrow> string \<Rightarrow> string \<Rightarrow> int \<Rightarrow> int \<Rightarrow> bool
     \<Rightarrow> h26x_event list" where
  "run_h26x_encoding subprocess_run input_dir output_path codec_mode fps crf invert_vis =
     (case codec_map codec_mode of
        None \<Rightarrow> [Callback (ERROR (UnknownCodecMode codec_mode))]
      | Some (codec, profile, pix_fmt, is_10bit) \<Rightarrow>
          (let command = [''ffmpeg''] @ input_args input_dir fps @ filter_args invert_vis
                           @ output_args codec profile pix_fmt is_10bit crf output_path
           in SubprocessRun command #
              (case subprocess_run command of
                 RunOk \<Rightarrow> [Callback (STATUS_UPDATE (EncodingComplete (basename output_path)))]
               | CalledProcessError returncode stderr \<Rightarrow>
                   [Callback (ERROR (FFmpegError (basename output_path) command returncode stderr))]
               | FileNotFoundError \<Rightarrow> [Callback (ERROR FFmpegNotFound)]
               | OtherException e \<Rightarrow> [Callback (ERROR (EncodingUnexpected e))])))"

definition is_error_event :: "h26x_event \<Rightarrow> bool" where
  "is_error_event ev = (case ev of Callback (ERROR _) \<Rightarrow> True | _ \<Rightarrow> False)"

definition is_subprocess_event :: "h26x_event \<Rightarrow> bool" where
  "is_subprocess_event ev = (case ev of SubprocessRun _ \<Rightarrow> True | _ \<Rightarrow> False)"

section \<open>Arrays\<close>

text \<open>
  A frame is an \<open>H \<times> W\<close> array of RGB pixels, a depth map an \<open>H \<times> W\<close> array of
  depth values; both are lists of rows.  Depth values are rationals (every
  finite float is one).  The averaging and the rescaling below compute exactly;
  the subtraction of the visualization inversion is the float subtraction,
  a parameter of \<open>invert_depths\<close>.
  A sequence (what \<open>np.stack(..., axis=0)\<close> returns) is the list of its frames.
  The shape of a 2-D array is kept as the list of its row lengths.
\<close>

type_synonym pixel = "nat \<times> nat \<times> nat"
type_synonym frame = "pixel list list"
type_synonym depth_map = "rat list list"
type_synonym depth_seq = "depth_map list"

definition shape :: "'a list list \<Rightarrow> nat list" where
  "shape a = map length a"

definition width :: "'a list list \<Rightarrow> nat" where
  "width a = (case a of [] \<Rightarrow> 0 | r # _ \<Rightarrow> length r)"

text \<open>\<open>np.stack(arrays, axis=0)\<close>: raises \<open>ValueError\<close> for no array at all and for
  arrays of different shapes.\<close>

definition np_stack :: "'a list list list \<Rightarrow> exc + 'a list list list" where
  "np_stack arrays =
     (if arrays = [] then Inl NeedAtLeastOneArray
      else if \<forall>a \<in> set arrays. shape a = shape (hd arrays) then Inr arrays
      else Inl ArraysNotSameShape)"

text \<open>\<open>np.flip(a, axis=1)\<close>: every row reversed.\<close>

definition np_flip_axis1 :: "'a list list \<Rightarrow> 'a list list" where
  "np_flip_axis1 a = map rev a"

text \<open>
  \<open>a + b\<close> on 2-D arrays.  Equal shapes add element by element; otherwise
  numpy stretches an axis of length 1 to the other array's length, and raises
  \<open>ValueError\<close> when an axis differs and neither length is 1.
\<close>

definition bc_len :: "nat \<Rightarrow> nat \<Rightarrow> nat option" where
  "bc_len n m = (if n = m then Some n else if n = 1 then Some m else if m = 1 then Some n else None)"

definition stretch :: "nat \<Rightarrow> 'a list \<Rightarrow> 'a list" where
  "stretch n xs = (if length xs = n then xs else replicate n (hd xs))"

definition np_add :: "depth_map \<Rightarrow> depth_map \<Rightarrow> exc + depth_map" where
  "np_add a b =
     (if shape a = shape b then Inr (map2 (map2 (+)) a b)
      else case bc_len (length a) (length b) of
             None \<Rightarrow> Inl CannotBroadcast
           | Some h \<Rightarrow>
               (case bc_len (width a) (width b) of
                  None \<Rightarrow> Inl CannotBroadcast
                | Some w \<Rightarrow>
                    Inr (map2 (map2 (+)) (stretch h (map (stretch w) a))
                                         (stretch h (map (stretch w) b)))))"

text \<open>\<open>depths.max()\<close> and \<open>depths.min()\<close>: the reduction over every element of every
  frame; \<open>ValueError\<close> on an array without elements.\<close>

definition elements :: "depth_seq \<Rightarrow> rat list" where
  "elements depths = concat (concat depths)"

definition array_max :: "depth_seq \<Rightarrow> exc + rat" where
  "array_max depths =
     (case elements depths of
        [] \<Rightarrow> Inl (ZeroSizeReduction ''maximum'')
      | x # xs \<Rightarrow> Inr (fold max xs x))"

definition array_min :: "depth_seq \<Rightarrow> exc + rat" where
  "array_min depths =
     (case elements depths of
        [] \<Rightarrow> Inl (ZeroSizeReduction ''minimum'')
      | x # xs \<Rightarrow> Inr (fold min xs x))"

section \<open>Visualization inversion\<close>

text \<open>
  \<open>depths_vis = depths_vis.max() - depths_vis\<close>: a new array, every value
  replaced by the maximum of the array minus the value.  The arrays hold
  32-bit floats, so the difference is the exact difference rounded to a float:
  \<open>float_subtract m v\<close> is the float that \<open>m - v\<close> evaluates to.
\<close>

definition invert_depths :: "(rat \<Rightarrow> rat \<Rightarrow> rat) \<Rightarrow> depth_seq \<Rightarrow> exc + depth_seq" where
  "invert_depths float_subtract depths_vis =
     (case array_max depths_vis of
        Inl e \<Rightarrow> Inl e
      | Inr m \<Rightarrow> Inr (map (map (map (\<lambda>v. float_subtract m v))) depths_vis))"

section \<open>Normalized PNG rasters\<close>

text \<open>
  \<open>x / y\<close> of numpy floats does not raise on a zero divisor: it yields
  \<open>nan\<close> or \<open>inf\<close> (with a RuntimeWarning).  \<open>None\<close> is that branch: no
  number comes out of the division.
\<close>

definition np_divide :: "rat \<Rightarrow> rat \<Rightarrow> rat option" where
  "np_divide x y = (if y = 0 then None else Some (x / y))"

text \<open>
  \<open>.astype(np.uint8)\<close> / \<open>.astype(np.uint16)\<close> of a float: the fractional
  part is dropped (truncation toward zero).  For a value whose truncation is
  outside the range of the target type the conversion has no defined result
  (\<open>None\<close>).
\<close>

definition trunc_zero :: "rat \<Rightarrow> int" where
  "trunc_zero x = (if x < 0 then \<lceil>x\<rceil> else \<lfloor>x\<rfloor>)"

definition astype_uint :: "nat \<Rightarrow> rat \<Rightarrow> int option" where
  "astype_uint bits x =
     (let t = trunc_zero x in if 0 \<le> t \<and> t < 2 ^ bits then Some t else None)"

text \<open>One pixel of \<open>depth_img\<close>:
  \<open>((depth - d_min) / (d_max - d_min) * 65535).astype(np.uint16)\<close> when
  \<open>png_16bit\<close>, \<open>((depth - d_min) / (d_max - d_min) * 255).astype(np.uint8)\<close>
  otherwise.\<close>

definition png_pixel :: "bool \<Rightarrow> rat \<Rightarrow> rat \<Rightarrow> rat \<Rightarrow> int option" where
  "png_pixel png_16bit d_min d_max v =
     (if png_16bit then
        (case np_divide (v - d_min) (d_max - d_min) of
           None \<Rightarrow> None
         | Some q \<Rightarrow> astype_uint 16 (q * 65535))
      else
        (case np_divide (v - d_min) (d_max - d_min) of
           None \<Rightarrow> None
         | Some q \<Rightarrow> astype_uint 8 (q * 255)))"

type_synonym png_image = "int option list list"

text \<open>The images of the PNG sequence, in frame order: \<open>d_min\<close> and \<open>d_max\<close> are
  taken once over the whole sequence, then every frame is rescaled.\<close>

definition png_images :: "bool \<Rightarrow> depth_seq \<Rightarrow> exc + png_image list" where
  "png_images png_16bit depths =
     (case array_min depths of
        Inl e \<Rightarrow> Inl e
      | Inr d_min \<Rightarrow>
          (case array_max depths of
             Inl e \<Rightarrow> Inl e
           | Inr d_max \<Rightarrow> Inr (map (map (map (png_pixel png_16bit d_min d_max))) depths)))"

section \<open>More of the Python library\<close>

text \<open>\<open>os.path.dirname(p)\<close>: everything up to the last separator, with the
  trailing separators removed unless nothing else is left.\<close>

definition dirname :: "string \<Rightarrow> string" where
  "dirname p =
     (let head = rev (dropWhile (\<lambda>c. c \<noteq> sep) (rev p))
      in if head \<noteq> [] \<and> (\<exists>c \<in> set head. c \<noteq> sep)
         then rev (dropWhile (\<lambda>c. c = sep) (rev head)) else head)"

text \<open>\<open>os.path.splitext(p)[0]\<close>: the extension starts at the last dot of the
  last component; leading dots of that component do not start an extension.\<close>

definition splitext_root :: "string \<Rightarrow> string" where
  "splitext_root p =
     (let name = basename p; dir = take (length p - length name) p
      in if CHR ''.'' \<in> set name then
           (let stem = rev (tl (dropWhile (\<lambda>c. c \<noteq> CHR ''.'') (rev name)))
            in if \<exists>c \<in> set stem. c \<noteq> CHR ''.'' then dir @ stem else p)
         else p)"

text \<open>\<open>s.lower()\<close> and \<open>s.endswith(suffix)\<close>, on ASCII strings.\<close>

definition lower_char :: "char \<Rightarrow> char" where
  "lower_char c =
     (case map_of (zip ''ABCDEFGHIJKLMNOPQRSTUVWXYZ'' ''abcdefghijklmnopqrstuvwxyz'') c of
        Some l \<Rightarrow> l
      | None \<Rightarrow> c)"

definition lower :: "string \<Rightarrow> string" where
  "lower s = map lower_char s"

definition endswith :: "string \<Rightarrow> string \<Rightarrow> bool" where
  "endswith s suffix =
     (length suffix \<le> length s \<and> drop (length s - length suffix) s = suffix)"

text \<open>The format \<open>{j:05d}\<close>: decimal, padded with zeros to five characters.\<close>

definition pad5 :: "nat \<Rightarrow> string" where
  "pad5 j = (let d = str_nat j in replicate (5 - length d) (CHR ''0'') @ d)"

text \<open>
  \<open>int(s)\<close> of a string, on ASCII strings: surrounding whitespace is dropped,
  one sign is allowed, then decimal digits, with single underscores between
  digits.  \<open>None\<close> is the \<open>ValueError\<close>.
\<close>

definition is_space :: "char \<Rightarrow> bool" where
  "is_space c = ((of_char c :: nat) \<in> {9, 10, 11, 12, 13, 28, 29, 30, 31, 32})"

definition is_digit :: "char \<Rightarrow> bool" where
  "is_digit c = (48 \<le> (of_char c :: nat) \<and> (of_char c :: nat) \<le> 57)"

definition strip :: "string \<Rightarrow> string" where
  "strip s = rev (dropWhile is_space (rev (dropWhile is_space s)))"

fun digits_value :: "string \<Rightarrow> nat \<Rightarrow> nat option" where
  "digits_value [] acc = Some acc"
| "digits_value (c # cs) acc =
     (if is_digit c then digits_value cs (acc * 10 + (of_char c - 48))
      else if c = CHR ''_'' \<and> cs \<noteq> [] \<and> is_digit (hd cs) then digits_value cs acc
      else None)"

definition py_int :: "string \<Rightarrow> int option" where
  "py_int s =
     (let t = strip s;
          neg = (t \<noteq> [] \<and> hd t = CHR ''-'');
          body = (if t \<noteq> [] \<and> (hd t = CHR ''-'' \<or> hd t = CHR ''+'') then tl t else t)
      in if body \<noteq> [] \<and> is_digit (hd body) then
           (case digits_value body 0 of
              None \<Rightarrow> None
            | Some n \<Rightarrow> Some (if neg then - int n else int n))
         else None)"

section \<open>The worker: configuration and environment\<close>

text \<open>
  The \<open>values\<close> dictionary handed to the worker by \<open>start_processing\<close>.  The
  four numeric entries read from a \<open>StringVar\<close> are strings, the two read from
  an \<open>IntVar\<close> are integers, the check boxes are booleans.
\<close>

record values_dict =
  INPUT_FOLDER :: string
  INPUT_FILE :: string
  OUTPUT_DIR :: string
  ENCODER :: string
  INPUT_SIZE :: string
  MAX_RES :: string
  MAX_LEN :: string
  TARGET_FPS :: string
  FP32 :: bool
  SAVE_COLOR :: bool
  SAVE_NPZ :: bool
  SAVE_EXR :: bool
  CREATE_SRC :: bool
  TTA :: bool
  RESUME :: bool
  SAVE_PNG :: bool
  PNG_16BIT :: bool
  PNG_COMPRESSION :: int
  METRIC :: bool
  INVERT_METRIC :: bool
  MP4_CRF :: int

text \<open>\<open>model_configs\<close>: encoder name to \<open>(features, out_channels)\<close>.\<close>

definition model_configs :: "string \<Rightarrow> (nat \<times> nat list) option" where
  "model_configs encoder =
     (if encoder = ''vits'' then Some (64, [48, 96, 192, 384])
      else if encoder = ''vitb'' then Some (128, [96, 192, 384, 768])
      else if encoder = ''vitl'' then Some (256, [256, 512, 1024, 1024])
      else None)"

text \<open>
  What building the model and loading its checkpoint can do
  (\<open>VideoDepthAnything(...)\<close>, \<open>torch.load\<close>, \<open>load_state_dict\<close>, \<open>.to(DEVICE).eval()\<close>).
\<close>

datatype load_result = ModelLoaded | CheckpointMissing | LoadFailed exc

text \<open>
  The places of one file's iteration at which something outside the program
  is called and may raise.
\<close>

datatype call_tag =
    MakeOutputDir
  | SaveSrcVideo
  | SaveDepthVideo
  | SaveNpz
  | MakeExrDir
  | ImportOpenEXR
  | WriteExrFrame nat
  | MakePngDir
  | WritePngFrame nat
  | MakeFinishedDir
  | MoveToFinished

text \<open>
  Everything outside the program: the file system, the stop flag, the frame
  source, the inference engine and the writers.  \<open>stop_is_set i\<close> is what
  \<open>stop_event.is_set()\<close> returns at the start of iteration \<open>i\<close>;
  \<open>path_exists i\<close> is \<open>os.path.exists\<close> during iteration \<open>i\<close>;
  \<open>raises i tag\<close> is the exception, if any, of the external call \<open>tag\<close> of
  iteration \<open>i\<close>; \<open>save_video_leaves\<close> is what \<open>save_video\<close> leaves in the
  depth array it was handed (it receives the array object, not a value);
  \<open>float32_subtract x y\<close> is what numpy's \<open>x - y\<close> on 32-bit floats evaluates to.
\<close>

record env =
  isdir :: "string \<Rightarrow> bool"
  isfile :: "string \<Rightarrow> bool"
  listdir :: "string \<Rightarrow> exc + string list"
  cuda_is_available :: bool
  load_model :: "string \<Rightarrow> bool \<Rightarrow> string \<Rightarrow> load_result"
  stop_is_set :: "nat \<Rightarrow> bool"
  read_video_frames :: "string \<Rightarrow> int \<Rightarrow> int \<Rightarrow> int \<Rightarrow> exc + frame list \<times> rat"
  infer_video_depth :: "frame list \<Rightarrow> rat \<Rightarrow> int \<Rightarrow> string \<Rightarrow> bool \<Rightarrow> exc + depth_seq \<times> rat"
  path_exists :: "nat \<Rightarrow> string \<Rightarrow> bool"
  raises :: "nat \<Rightarrow> call_tag \<Rightarrow> exc option"
  save_video_leaves :: "depth_seq \<Rightarrow> depth_seq"
  float32_subtract :: "rat \<Rightarrow> rat \<Rightarrow> rat"

text \<open>
  The effects of the worker, in order: a notification put on the queue, or a
  call of an external writer with its arguments.
\<close>

datatype ext_call =
    SaveVideoFrames "frame list" string rat int
      \<comment> \<open>\<open>save_video(frames, path, fps=fps, crf=mp4_crf)\<close>\<close>
  | SaveVideoDepths depth_seq string rat bool int
      \<comment> \<open>\<open>save_video(depths_vis, path, fps=fps, is_depths=True, grayscale=grayscale, crf=mp4_crf)\<close>\<close>
  | SavezCompressed string depth_seq
      \<comment> \<open>\<open>np.savez_compressed(path, depths=depths)\<close>\<close>
  | Makedirs string
  | ExrWrite string nat nat depth_map
      \<comment> \<open>file name, header width and height, pixels of channel Z\<close>
  | ImWrite string png_image int
      \<comment> \<open>\<open>cv2.imwrite(path, depth_img, [IMWRITE_PNG_COMPRESSION, png_compression])\<close>\<close>
  | Move string string

datatype event = Put notification | Call ext_call

datatype ending = Returns | Raises exc

section \<open>The worker: before the loop\<close>

text \<open>Lines 492--505: which of file and folder is used.  The result is
  \<open>(input_file, input_folder)\<close>.\<close>

definition resolve_input :: "env \<Rightarrow> values_dict \<Rightarrow> error_text + string \<times> string" where
  "resolve_input env v =
     (let input_folder = INPUT_FOLDER v; input_file = INPUT_FILE v
      in if input_file \<noteq> [] then Inr (input_file, [])
         else if input_folder \<noteq> [] \<and> \<not> isdir env input_folder then
           (if isfile env input_folder then Inr (input_folder, [])
            else Inl (InvalidInputPath input_folder))
         else Inr (input_file, input_folder))"

definition video_extensions :: "string list" where
  "video_extensions = [''.mp4'', ''.avi'', ''.mov'', ''.mkv'']"

text \<open>Lines 535--550: the files of the batch.  \<open>Inl (Inl t)\<close> is an error
  notification followed by \<open>return\<close>, \<open>Inl (Inr e)\<close> an exception of
  \<open>os.listdir\<close>, which nothing catches.\<close>

definition files_to_process ::
  "env \<Rightarrow> string \<Rightarrow> string \<Rightarrow> (error_text + exc) + string list" where
  "files_to_process env input_file input_folder =
     (if input_file \<noteq> [] then Inr [input_file]
      else if input_folder \<noteq> [] then
        (case listdir env input_folder of
           Inl e \<Rightarrow> Inl (Inr e)
         | Inr names \<Rightarrow>
             (let video_files =
                    filter (\<lambda>f. isfile env (path_join input_folder f) \<and>
                                (\<exists>ext \<in> set video_extensions. endswith (lower f) ext)) names
              in if video_files = [] then Inl (Inl NoVideoFiles)
                 else Inr (map (path_join input_folder) video_files)))
      else Inl (Inl NoInputSelected))"

text \<open>Lines 556--569: the model.  \<open>Some t\<close> is the error notification of the
  two handlers, each followed by \<open>return\<close>.\<close>

definition checkpoint_path :: "values_dict \<Rightarrow> string" where
  "checkpoint_path v =
     ''./checkpoints/'' @ (if METRIC v then ''metric_video_depth_anything'' else ''video_depth_anything'')
       @ ''_'' @ ENCODER v @ ''.pth''"

definition load_error :: "env \<Rightarrow> values_dict \<Rightarrow> error_text option" where
  "load_error env v =
     (case model_configs (ENCODER v) of
        None \<Rightarrow> Some (ModelLoadError (UnknownKey (ENCODER v)))
      | Some cfg \<Rightarrow>
          (case load_model env (ENCODER v) (METRIC v) (checkpoint_path v) of
             ModelLoaded \<Rightarrow> None
           | CheckpointMissing \<Rightarrow> Some (CheckpointNotFound (ENCODER v))
           | LoadFailed e \<Rightarrow> Some (ModelLoadError e)))"

text \<open>
  Lines 492--569 together.  The result is the trace so far and either the end
  of the worker or \<open>(files_to_process, input_size, max_res, DEVICE)\<close>.
\<close>

definition prepare ::
  "env \<Rightarrow> values_dict \<Rightarrow> event list \<times> (ending + string list \<times> int \<times> int \<times> string)" where
  "prepare env v =
     (case resolve_input env v of
        Inl t \<Rightarrow> ([Put (ERROR t)], Inl Returns)
      | Inr (input_file, input_folder) \<Rightarrow>
          (case py_int (INPUT_SIZE v) of
             None \<Rightarrow> ([Put (ERROR InvalidSizeType)], Inl Returns)
           | Some input_size \<Rightarrow>
               (case py_int (MAX_RES v) of
                  None \<Rightarrow> ([Put (ERROR InvalidSizeType)], Inl Returns)
                | Some max_res \<Rightarrow>
                    (case files_to_process env input_file input_folder of
                       Inl (Inl t) \<Rightarrow> ([Put (ERROR t)], Inl Returns)
                     | Inl (Inr e) \<Rightarrow> ([], Inl (Raises e))
                     | Inr files \<Rightarrow>
                         (case load_error env v of
                            Some t \<Rightarrow>
                              ([Put (STATUS_UPDATE LoadingModel), Put (ERROR t)], Inl Returns)
                          | None \<Rightarrow>
                              ([Put (STATUS_UPDATE LoadingModel)],
                               Inr (files, input_size, max_res,
                                    (if cuda_is_available env then ''cuda'' else ''cpu''))))))))"

section \<open>The worker: one file\<close>

text \<open>
  Lines 582--587, the guarded expression
  \<open>read_video_frames(file_path, int(max_len), int(target_fps), int(max_res))\<close>:
  the arguments are evaluated from left to right, \<open>max_res\<close> is an integer
  already.
\<close>

definition try_read :: "env \<Rightarrow> values_dict \<Rightarrow> int \<Rightarrow> string \<Rightarrow> exc + frame list \<times> rat" where
  "try_read env v max_res file_path =
     (case py_int (MAX_LEN v) of
        None \<Rightarrow> Inl (InvalidIntLiteral (MAX_LEN v))
      | Some max_len \<Rightarrow>
          (case py_int (TARGET_FPS v) of
             None \<Rightarrow> Inl (InvalidIntLiteral (TARGET_FPS v))
           | Some target_fps \<Rightarrow> read_video_frames env file_path max_len target_fps max_res))"

text \<open>Line 609: \<open>[(d_orig + d_flip) / 2 for d_orig, d_flip in zip(...)]\<close>.\<close>

fun average_all :: "depth_seq \<Rightarrow> depth_seq \<Rightarrow> exc + depth_seq" where
  "average_all (d_orig # origs) (d_flip # flips) =
     (case np_add d_orig d_flip of
        Inl e \<Rightarrow> Inl e
      | Inr s \<Rightarrow>
          (case average_all origs flips of
             Inl e \<Rightarrow> Inl e
           | Inr rest \<Rightarrow> Inr (map (map (\<lambda>x. x / 2)) s # rest)))"
| "average_all _ _ = Inr []"

text \<open>Lines 593--618, the guarded block: inference, with test-time
  augmentation when \<open>tta\<close> is set.\<close>

definition infer_depths ::
  "env \<Rightarrow> values_dict \<Rightarrow> int \<Rightarrow> string \<Rightarrow> frame list \<Rightarrow> frame list \<Rightarrow> rat
     \<Rightarrow> exc + depth_seq \<times> rat" where
  "infer_depths env v input_size device frames frames_array actual_target_fps =
     (if TTA v then
        (case infer_video_depth env frames_array actual_target_fps input_size device (FP32 v) of
           Inl e \<Rightarrow> Inl e
         | Inr (depths_original, fps) \<Rightarrow>
             (case np_stack (map np_flip_axis1 frames) of
                Inl e \<Rightarrow> Inl e
              | Inr flipped_frames_array \<Rightarrow>
                  (case infer_video_depth env flipped_frames_array actual_target_fps
                          input_size device (FP32 v) of
                     Inl e \<Rightarrow> Inl e
                   | Inr (depths_flipped, _) \<Rightarrow>
                       (case average_all depths_original (map np_flip_axis1 depths_flipped) of
                          Inl e \<Rightarrow> Inl e
                        | Inr depths_list \<Rightarrow>
                            (case np_stack depths_list of
                               Inl e \<Rightarrow> Inl e
                             | Inr depths \<Rightarrow> Inr (depths, fps))))))
      else infer_video_depth env frames_array actual_target_fps input_size device (FP32 v))"

subsection \<open>The output stage (lines 626--692)\<close>

text \<open>
  Depth arrays are objects: a name holds an address, and the heap maps
  addresses to contents.  \<open>depths.copy()\<close> and \<open>m - depths_vis\<close> allocate a new
  array; \<open>save_video\<close> receives an address and may change what is stored
  there.  A step of the stage takes the heap and returns the exception it
  raises, if any, its effects, and the heap it leaves.
\<close>

type_synonym heap = "depth_seq list"
type_synonym step = "heap \<Rightarrow> exc option \<times> event list \<times> heap"

definition no_heap :: "exc option \<times> event list \<Rightarrow> step" where
  "no_heap r h = (fst r, snd r, h)"

definition reading :: "nat \<Rightarrow> (depth_seq \<Rightarrow> exc option \<times> event list) \<Rightarrow> step" where
  "reading a f h = (case f (h ! a) of (r, evs) \<Rightarrow> (r, evs, h))"

text \<open>The statements of a \<open>try\<close> block in order: the first exception ends the
  block.\<close>

fun run_steps :: "step list \<Rightarrow> heap \<Rightarrow> exc option \<times> event list \<times> heap" where
  "run_steps [] h = (None, [], h)"
| "run_steps (st # sts) h =
     (case st h of
        (Some e, evs, h') \<Rightarrow> (Some e, evs, h')
      | (None, evs, h') \<Rightarrow>
          (case run_steps sts h' of (r, evs', h'') \<Rightarrow> (r, evs @ evs', h'')))"

text \<open>A loop over the frames that writes one file per frame; the call for
  frame \<open>j\<close> is made, and the loop ends when it raises.\<close>

fun write_frames ::
  "(nat \<Rightarrow> exc option) \<Rightarrow> (nat \<Rightarrow> 'a \<Rightarrow> ext_call) \<Rightarrow> nat \<Rightarrow> 'a list \<Rightarrow> exc option \<times> event list" where
  "write_frames rs mk j [] = (None, [])"
| "write_frames rs mk j (x # xs) =
     (case rs j of
        Some e \<Rightarrow> (Some e, [Call (mk j x)])
      | None \<Rightarrow> (case write_frames rs mk (Suc j) xs of (r, evs) \<Rightarrow> (r, Call (mk j x) # evs)))"

text \<open>Lines 630--631.\<close>

definition step_src ::
  "env \<Rightarrow> values_dict \<Rightarrow> nat \<Rightarrow> frame list \<Rightarrow> string \<Rightarrow> rat \<Rightarrow> exc option \<times> event list" where
  "step_src env v i frames processed_video_path fps =
     (if CREATE_SRC v then
        (raises env i SaveSrcVideo,
         [Call (SaveVideoFrames frames processed_video_path fps (MP4_CRF v))])
      else (None, []))"

text \<open>Line 642: \<open>save_video\<close> is handed the array at address \<open>a_vis\<close>.\<close>

definition save_depth_video ::
  "env \<Rightarrow> values_dict \<Rightarrow> nat \<Rightarrow> nat \<Rightarrow> string \<Rightarrow> rat \<Rightarrow> step" where
  "save_depth_video env v i a_vis depth_vis_path fps h =
     (raises env i SaveDepthVideo,
      [Call (SaveVideoDepths (h ! a_vis) depth_vis_path fps (\<not> SAVE_COLOR v) (MP4_CRF v))],
      h[a_vis := save_video_leaves env (h ! a_vis)])"

text \<open>Lines 634--642: the copy, the inversion, the visualization video.\<close>

definition step_vis :: "env \<Rightarrow> values_dict \<Rightarrow> nat \<Rightarrow> nat \<Rightarrow> string \<Rightarrow> rat \<Rightarrow> step" where
  "step_vis env v i a_depths depth_vis_path fps h =
     (let a_copy = length h; h1 = h @ [h ! a_depths]
      in if INVERT_METRIC v then
           (case invert_depths (float32_subtract env) (h1 ! a_copy) of
              Inl e \<Rightarrow> (Some e, [], h1)
            | Inr inverted \<Rightarrow>
                save_depth_video env v i (length h1) depth_vis_path fps (h1 @ [inverted]))
         else save_depth_video env v i a_copy depth_vis_path fps h1)"

text \<open>Lines 644--646.\<close>

definition step_npz ::
  "env \<Rightarrow> values_dict \<Rightarrow> nat \<Rightarrow> string \<Rightarrow> depth_seq \<Rightarrow> exc option \<times> event list" where
  "step_npz env v i depth_npz_path depths =
     (if SAVE_NPZ v then (raises env i SaveNpz, [Call (SavezCompressed depth_npz_path depths)])
      else (None, []))"

text \<open>Lines 648--660.\<close>

definition step_exr ::
  "env \<Rightarrow> values_dict \<Rightarrow> nat \<Rightarrow> string \<Rightarrow> depth_seq \<Rightarrow> exc option \<times> event list" where
  "step_exr env v i depth_exr_dir depths =
     (if SAVE_EXR v then
        (case raises env i MakeExrDir of
           Some e \<Rightarrow> (Some e, [Call (Makedirs depth_exr_dir)])
         | None \<Rightarrow>
             (case raises env i ImportOpenEXR of
                Some e \<Rightarrow> (Some e, [Call (Makedirs depth_exr_dir)])
              | None \<Rightarrow>
                  (case write_frames (\<lambda>j. raises env i (WriteExrFrame j))
                          (\<lambda>j depth. ExrWrite (depth_exr_dir @ ''/frame_'' @ pad5 j @ ''.exr'')
                                        (width depth) (length depth) depth)
                          0 depths of
                     (r, evs) \<Rightarrow> (r, Call (Makedirs depth_exr_dir) # evs))))
      else (None, []))"

text \<open>Lines 663--678.\<close>

definition step_png ::
  "env \<Rightarrow> values_dict \<Rightarrow> nat \<Rightarrow> string \<Rightarrow> depth_seq \<Rightarrow> exc option \<times> event list" where
  "step_png env v i depth_png_dir depths =
     (if SAVE_PNG v then
        (case raises env i MakePngDir of
           Some e \<Rightarrow> (Some e, [Call (Makedirs depth_png_dir)])
         | None \<Rightarrow>
             (case png_images (PNG_16BIT v) depths of
                Inl e \<Rightarrow> (Some e, [Call (Makedirs depth_png_dir)])
              | Inr imgs \<Rightarrow>
                  (case write_frames (\<lambda>j. raises env i (WritePngFrame j))
                          (\<lambda>j depth_img. ImWrite (depth_png_dir @ ''/frame_'' @ pad5 j @ ''.png'')
                                            depth_img (PNG_COMPRESSION v))
                          0 imgs of
                     (r, evs) \<Rightarrow> (r, Call (Makedirs depth_png_dir) # evs))))
      else (None, []))"

text \<open>Lines 681--691: the move into \<open>finished\<close>, with its own handler around
  \<open>shutil.move\<close> only.\<close>

definition step_resume :: "env \<Rightarrow> values_dict \<Rightarrow> nat \<Rightarrow> string \<Rightarrow> exc option \<times> event list" where
  "step_resume env v i file_path =
     (if RESUME v then
        (let finished_dir = path_join (dirname file_path) ''finished'';
             move = Call (Move file_path (path_join finished_dir (basename file_path)));
             moved = (case raises env i MoveToFinished of
                        Some e \<Rightarrow> [move, Put (ERROR (MoveError file_path e))]
                      | None \<Rightarrow> [move])
         in if path_exists env i finished_dir then (None, moved)
            else (case raises env i MakeFinishedDir of
                    Some e \<Rightarrow> (Some e, [Call (Makedirs finished_dir)])
                  | None \<Rightarrow> (None, Call (Makedirs finished_dir) # moved)))
      else (None, []))"

text \<open>The body of the \<open>try\<close> of lines 626--692; \<open>depths\<close> is the array at
  address 0.\<close>

definition output_steps ::
  "env \<Rightarrow> values_dict \<Rightarrow> nat \<Rightarrow> string \<Rightarrow> frame list \<Rightarrow> rat \<Rightarrow> step list" where
  "output_steps env v i file_path frames fps =
     (let output_dir = OUTPUT_DIR v;
          base_name_no_ext = splitext_root (basename file_path)
      in [no_heap (step_src env v i frames (path_join output_dir (base_name_no_ext @ ''_src.mp4'')) fps),
          step_vis env v i 0 (path_join output_dir (base_name_no_ext @ ''_depth.mp4'')) fps,
          reading 0 (step_npz env v i (path_join output_dir (base_name_no_ext @ ''_depths.npz''))),
          reading 0 (step_exr env v i (path_join output_dir (base_name_no_ext @ ''_depths_exr''))),
          reading 0 (step_png env v i (path_join output_dir (base_name_no_ext @ ''_depth_png''))),
          no_heap (step_resume env v i file_path)])"

definition save_outputs ::
  "env \<Rightarrow> values_dict \<Rightarrow> nat \<Rightarrow> string \<Rightarrow> frame list \<Rightarrow> depth_seq \<Rightarrow> rat
     \<Rightarrow> exc option \<times> event list \<times> heap" where
  "save_outputs env v i file_path frames depths fps =
     run_steps (output_steps env v i file_path frames fps) [depths]"

text \<open>Lines 626--696: the output stage with its handler (line 693) and the
  progress update that follows in every case.\<close>

definition save_stage ::
  "env \<Rightarrow> values_dict \<Rightarrow> nat \<Rightarrow> string \<Rightarrow> frame list \<Rightarrow> depth_seq \<Rightarrow> rat \<Rightarrow> event list" where
  "save_stage env v i file_path frames depths fps =
     (case save_outputs env v i file_path frames depths fps of
        (r, evs, h) \<Rightarrow>
          evs @ (case r of
                   Some e \<Rightarrow> [Put (ERROR (SaveOutputsError (basename file_path) e))]
                 | None \<Rightarrow> [])
              @ [Put (PROGRESS_UPDATE (i + 1))])"

subsection \<open>The body of the loop (lines 579--696)\<close>

text \<open>Lines 621--622.\<close>

definition make_output_dir :: "env \<Rightarrow> values_dict \<Rightarrow> nat \<Rightarrow> exc option \<times> event list" where
  "make_output_dir env v i =
     (if \<not> path_exists env i (OUTPUT_DIR v)
      then (raises env i MakeOutputDir, [Call (Makedirs (OUTPUT_DIR v))])
      else (None, []))"

text \<open>
  One iteration after the check of the stop flag.  The result is the trace
  of the iteration and the exception that leaves it, if any: \<open>None\<close> means
  that the loop goes on with the next file.
\<close>

definition process_file ::
  "env \<Rightarrow> values_dict \<Rightarrow> int \<Rightarrow> int \<Rightarrow> string \<Rightarrow> nat \<Rightarrow> nat \<Rightarrow> string
     \<Rightarrow> event list \<times> exc option" where
  "process_file env v input_size max_res device total_files i file_path =
     (let status = Put (STATUS_UPDATE (ProcessingFile (i + 1) total_files (basename file_path)))
      in case try_read env v max_res file_path of
           Inl e \<Rightarrow>
             ([status, Put (ERROR (ReadFramesError (basename file_path) e)),
               Put (PROGRESS_UPDATE (i + 1))], None)
         | Inr (frames, actual_target_fps) \<Rightarrow>
             (case np_stack frames of
                Inl e \<Rightarrow> ([status], Some e)
              | Inr frames_array \<Rightarrow>
                  (case infer_depths env v input_size device frames frames_array
                          actual_target_fps of
                     Inl e \<Rightarrow>
                       ([status, Put (ERROR (InferenceError (basename file_path) e)),
                         Put (PROGRESS_UPDATE (i + 1))], None)
                   | Inr (depths, fps) \<Rightarrow>
                       (case make_output_dir env v i of
                          (Some e, evs) \<Rightarrow> (status # evs, Some e)
                        | (None, evs) \<Rightarrow>
                            (status # evs @ save_stage env v i file_path frames depths fps,
                             None)))))"

section \<open>The worker: the loop and the whole thread body\<close>

text \<open>
  Lines 575--696, \<open>for i, file_path in enumerate(files_to_process)\<close>.  The
  result is the trace and how the loop ends: \<open>None\<close> when the files are
  exhausted, \<open>Some Returns\<close> for the \<open>return\<close> after the stop flag was seen,
  \<open>Some (Raises e)\<close> for an exception that no handler catches.
\<close>

fun process_files ::
  "env \<Rightarrow> values_dict \<Rightarrow> int \<Rightarrow> int \<Rightarrow> string \<Rightarrow> nat \<Rightarrow> nat \<Rightarrow> string list
     \<Rightarrow> event list \<times> ending option" where
  "process_files env v input_size max_res device total_files i [] = ([], None)"
| "process_files env v input_size max_res device total_files i (file_path # rest) =
     (if stop_is_set env i then ([Put (THREAD_DONE Stopped)], Some Returns)
      else case process_file env v input_size max_res device total_files i file_path of
             (evs, Some e) \<Rightarrow> (evs, Some (Raises e))
           | (evs, None) \<Rightarrow>
               (case process_files env v input_size max_res device total_files (Suc i) rest of
                  (evs', r) \<Rightarrow> (evs @ evs', r)))"

text \<open>
  \<open>process_videos_threaded(values, stop_event)\<close>: the trace of the thread and
  how its body ends.  The cleanup of lines 700--708 puts nothing on the queue
  and catches its own exceptions.
\<close>

definition process_videos_threaded :: "env \<Rightarrow> values_dict \<Rightarrow> event list \<times> ending" where
  "process_videos_threaded env v =
     (case prepare env v of
        (evs, Inl ending) \<Rightarrow> (evs, ending)
      | (evs, Inr (files, input_size, max_res, device)) \<Rightarrow>
          (let total_files = length files
           in case process_files env v input_size max_res device total_files 0 files of
                (evs', Some ending) \<Rightarrow> (evs @ Put (SET_MAX total_files) # evs', ending)
              | (evs', None) \<Rightarrow>
                  (evs @ Put (SET_MAX total_files) # evs' @ [Put (THREAD_DONE Completed)],
                   Returns)))"

section \<open>Reading a trace\<close>

text \<open>The contents of the queue, in order.\<close>

fun notifications :: "event list \<Rightarrow> notification list" where
  "notifications [] = []"
| "notifications (Put n # evs) = n # notifications evs"
| "notifications (Call c # evs) = notifications evs"

text \<open>The calls of the external writers, in order.\<close>

fun calls :: "event list \<Rightarrow> ext_call list" where
  "calls [] = []"
| "calls (Put n # evs) = calls evs"
| "calls (Call c # evs) = c # calls evs"

definition is_progress :: "notification \<Rightarrow> bool" where
  "is_progress n = (case n of PROGRESS_UPDATE _ \<Rightarrow> True | _ \<Rightarrow> False)"

definition is_error :: "notification \<Rightarrow> bool" where
  "is_error n = (case n of ERROR _ \<Rightarrow> True | _ \<Rightarrow> False)"

definition is_done :: "notification \<Rightarrow> bool" where
  "is_done n = (case n of THREAD_DONE _ \<Rightarrow> True | _ \<Rightarrow> False)"

text \<open>The file an error notification names: the per-file templates carry the
  base name of the file, the failed move its whole path.\<close>

definition error_about :: "string \<Rightarrow> notification \<Rightarrow> bool" where
  "error_about file_path n =
     (case n of
        ERROR (ReadFramesError b _) \<Rightarrow> b = basename file_path
      | ERROR (InferenceError b _) \<Rightarrow> b = basename file_path
      | ERROR (SaveOutputsError b _) \<Rightarrow> b = basename file_path
      | ERROR (MoveError p _) \<Rightarrow> p = file_path
      | _ \<Rightarrow> False)"

text \<open>The raw data artifacts: the archive, the EXR frames and the PNG frames.\<close>

definition is_raw :: "ext_call \<Rightarrow> bool" where
  "is_raw c =
     (case c of SavezCompressed _ _ \<Rightarrow> True | ExrWrite _ _ _ _ \<Rightarrow> True | ImWrite _ _ _ \<Rightarrow> True
              | _ \<Rightarrow> False)"

text \<open>The output stage itself puts one kind of notification on the queue: the
  failed move of the file named \<open>file_path\<close>.\<close>

definition only_move :: "string \<Rightarrow> event list \<Rightarrow> bool" where
  "only_move file_path evs =
     (\<forall>n \<in> set (notifications evs). \<exists>e. n = ERROR (MoveError file_path e))"

section \<open>Example inputs\<close>

text \<open>
  A small configuration and environment on which the definitions are
  evaluated: one input file (or a folder of three videos and a text file),
  frames of one row and two pixels, an engine whose depth is the red channel
  plus the column, and writers that succeed.
\<close>

definition demo_values :: values_dict where
  "demo_values = \<lparr> INPUT_FOLDER = [], INPUT_FILE = ''/in/a.mp4'', OUTPUT_DIR = ''/out'',
     ENCODER = ''vitl'', INPUT_SIZE = ''518'', MAX_RES = ''1280'', MAX_LEN = ''-1'',
     TARGET_FPS = ''-1'', FP32 = False, SAVE_COLOR = False, SAVE_NPZ = True, SAVE_EXR = False,
     CREATE_SRC = True, TTA = False, RESUME = False, SAVE_PNG = False, PNG_16BIT = False,
     PNG_COMPRESSION = 1, METRIC = False, INVERT_METRIC = False, MP4_CRF = 18 \<rparr>"

definition demo_frames :: "frame list" where
  "demo_frames = [[[(0, 0, 0), (4, 0, 0)]]]"

definition demo_engine :: "frame list \<Rightarrow> depth_seq" where
  "demo_engine fs =
     map (map (\<lambda>row. map2 (\<lambda>(r, g, b) c. of_nat r + of_nat c) row [0..<length row])) fs"

text \<open>Two subtractions: the one of floats whose difference is a float again
  (as for the small integers of the examples), and one that rounds every
  difference down to a multiple of a quarter.\<close>

definition exact_subtract :: "rat \<Rightarrow> rat \<Rightarrow> rat" where
  "exact_subtract x y = x - y"


definition demo_env :: env where
  "demo_env = \<lparr> isdir = (\<lambda>p. p = ''/in''),
     isfile = (\<lambda>p. p \<in> {''/in/a.mp4'', ''/in/b.MKV'', ''/in/c.avi''}),
     listdir = (\<lambda>p. Inr [''a.mp4'', ''notes.txt'', ''b.MKV'', ''c.avi'']),
     cuda_is_available = False,
     load_model = (\<lambda>encoder metric path. ModelLoaded),
     stop_is_set = (\<lambda>i. False),
     read_video_frames = (\<lambda>p max_len target_fps max_res.
        if p = ''/in/b.MKV'' then Inl (Exc ''moov atom not found'') else Inr (demo_frames, 30)),
     infer_video_depth = (\<lambda>fs fps input_size device fp32. Inr (demo_engine fs, fps)),
     path_exists = (\<lambda>i p. True),
     raises = (\<lambda>i tag. None),
     save_video_leaves = (\<lambda>d. d),
     float32_subtract = exact_subtract \<rparr>"

text \<open>The same run on the folder \<open>/in\<close>, and on a path that does not exist.\<close>

definition demo_folder_values :: values_dict where
  "demo_folder_values = demo_values\<lparr>INPUT_FILE := [], INPUT_FOLDER := ''/in''\<rparr>"

definition demo_missing_path_values :: values_dict where
  "demo_missing_path_values = demo_values\<lparr>INPUT_FILE := [], INPUT_FOLDER := ''/nowhere''\<rparr>"

text \<open>Environments in which one thing goes wrong: the source clip cannot be
  written; the output directory does not exist and cannot be created; the
  frame source returns no frame; the folder holds no video; the checkpoint
  file is missing.\<close>

definition src_write_fails :: "nat \<Rightarrow> call_tag \<Rightarrow> exc option" where
  "src_write_fails i tag = (if tag = SaveSrcVideo then Some (Exc ''disk full'') else None)"

definition demo_env_disk_full :: env where
  "demo_env_disk_full = demo_env\<lparr>raises := src_write_fails\<rparr>"

definition output_dir_fails :: "nat \<Rightarrow> call_tag \<Rightarrow> exc option" where
  "output_dir_fails i tag =
     (if tag = MakeOutputDir then Some (Exc ''Permission denied'') else None)"

definition nothing_exists :: "nat \<Rightarrow> string \<Rightarrow> bool" where
  "nothing_exists i p = False"

definition demo_env_no_output_dir :: env where
  "demo_env_no_output_dir = demo_env\<lparr>path_exists := nothing_exists, raises := output_dir_fails\<rparr>"

definition reads_no_frames :: "string \<Rightarrow> int \<Rightarrow> int \<Rightarrow> int \<Rightarrow> exc + frame list \<times> rat" where
  "reads_no_frames p max_len target_fps max_res = Inr ([], 30)"

definition demo_env_no_frames :: env where
  "demo_env_no_frames = demo_env\<lparr>read_video_frames := reads_no_frames\<rparr>"

text \<open>A folder whose first video cannot be decoded and whose second video
  decodes to no frame.\<close>

definition first_unreadable_second_empty ::
  "string \<Rightarrow> int \<Rightarrow> int \<Rightarrow> int \<Rightarrow> exc + frame list \<times> rat" where
  "first_unreadable_second_empty p max_len target_fps max_res =
     (if p = ''/in/a.mp4'' then Inl (Exc ''moov atom not found'')
      else if p = ''/in/b.MKV'' then Inr ([], 30)
      else Inr (demo_frames, 30))"

definition demo_env_second_empty :: env where
  "demo_env_second_empty = demo_env\<lparr>read_video_frames := first_unreadable_second_empty\<rparr>"

definition lists_notes_only :: "string \<Rightarrow> exc + string list" where
  "lists_notes_only p = Inr [''notes.txt'']"

definition demo_env_empty_folder :: env where
  "demo_env_empty_folder = demo_env\<lparr>listdir := lists_notes_only\<rparr>"

definition checkpoint_missing :: "string \<Rightarrow> bool \<Rightarrow> string \<Rightarrow> load_result" where
  "checkpoint_missing encoder metric path = CheckpointMissing"

definition demo_env_no_checkpoint :: env where
  "demo_env_no_checkpoint = demo_env\<lparr>load_model := checkpoint_missing\<rparr>"

text \<open>A writer that empties the array it is handed, and a configuration that
  asks for every raw artifact.\<close>

definition leaves_nothing :: "depth_seq \<Rightarrow> depth_seq" where
  "leaves_nothing d = []"

definition demo_env_scrambling :: env where
  "demo_env_scrambling = demo_env\<lparr>save_video_leaves := leaves_nothing\<rparr>"

definition demo_raw_values :: values_dict where
  "demo_raw_values = demo_values\<lparr>SAVE_PNG := True, SAVE_EXR := True\<rparr>"

section \<open>Verified properties\<close>

subsection \<open>Encoding helper\<close>

text \<open>
  C8. For each of the four supported codec-mode keys the helper starts the
  subprocess with exactly the matching codec, profile, pixel format and
  container tag on the command line; for every key outside the table its
  whole effect is one error notification, and no subprocess is started.
\<close>

theorem h26x_codec_selection:
  "hd (run_h26x_encoding sp d out ''libx264 (8-bit)'' fps crf invert_vis) =
     SubprocessRun ([''ffmpeg''] @ input_args d fps @ filter_args invert_vis @
       [''-vcodec'', ''libx264'', ''-pix_fmt'', ''yuv420p'', ''-crf'', str_int crf,
        ''-profile:v'', ''high'', ''-tag:v'', ''avc1'', out])
   \<and> hd (run_h26x_encoding sp d out ''libx265 (10-bit)'' fps crf invert_vis) =
     SubprocessRun ([''ffmpeg''] @ input_args d fps @ filter_args invert_vis @
       [''-vcodec'', ''libx265'', ''-pix_fmt'', ''yuv420p10le'', ''-crf'', str_int crf,
        ''-profile:v'', ''main10'', ''-tag:v'', ''hvc1'', out])
   \<and> hd (run_h26x_encoding sp d out ''nvenc_h264 (8-bit)'' fps crf invert_vis) =
     SubprocessRun ([''ffmpeg''] @ input_args d fps @ filter_args invert_vis @
       [''-vcodec'', ''h264_nvenc'', ''-pix_fmt'', ''yuv420p'', ''-crf'', str_int crf,
        ''-profile:v'', ''high'', ''-tag:v'', ''avc1'', out])
   \<and> hd (run_h26x_encoding sp d out ''nvenc_h265 (10-bit)'' fps crf invert_vis) =
     SubprocessRun ([''ffmpeg''] @ input_args d fps @ filter_args invert_vis @
       [''-vcodec'', ''hevc_nvenc'', ''-pix_fmt'', ''yuv420p10le'', ''-crf'', str_int crf,
        ''-profile:v'', ''main10'', ''-tag:v'', ''hvc1'', out])
   \<and> (codec_mode \<notin> {''libx264 (8-bit)'', ''libx265 (10-bit)'', ''nvenc_h264 (8-bit)'',
                      ''nvenc_h265 (10-bit)''} \<longrightarrow>
        run_h26x_encoding sp d out codec_mode fps crf invert_vis =
          [Callback (ERROR (UnknownCodecMode codec_mode))]
        \<and> length (filter is_error_event (run_h26x_encoding sp d out codec_mode fps crf invert_vis)) = 1
        \<and> filter is_subprocess_event (run_h26x_encoding sp d out codec_mode fps crf invert_vis) = [])"
  by (simp add: run_h26x_encoding_def codec_map_def output_args_def Let_def
        is_error_event_def is_subprocess_event_def)

theorem h26x_codec_selection_witness:
  "''vp9'' \<notin> {''libx264 (8-bit)'', ''libx265 (10-bit)'', ''nvenc_h264 (8-bit)'',
                      ''nvenc_h265 (10-bit)''} \<and>
   run_h26x_encoding (\<lambda>c. RunOk) ''/tmp/png'' ''/tmp/out.mp4'' ''vp9'' 30 18 False =
          [Callback (ERROR (UnknownCodecMode ''vp9''))]
   \<and> hd (run_h26x_encoding (\<lambda>c. RunOk) ''/tmp/png'' ''/tmp/out.mp4'' ''libx265 (10-bit)'' 30 18 False) =
     SubprocessRun [''ffmpeg'', ''-y'', ''-i'', ''/tmp/png/frame_%05d.png'', ''-r'', ''30'',
        ''-vf'', ''format=gray'',
        ''-vcodec'', ''libx265'', ''-pix_fmt'', ''yuv420p10le'', ''-crf'', ''18'',
        ''-profile:v'', ''main10'', ''-tag:v'', ''hvc1'', ''/tmp/out.mp4'']"
  using h26x_codec_selection [of "\<lambda>c. RunOk" "''/tmp/png''" "''/tmp/out.mp4''" 30 18 False "''vp9''"]
  by (simp add: input_args_def filter_args_def path_join_def sep_def str_int_def str_nat.simps)

subsection \<open>Depth arithmetic\<close>


lemma array_min_bounds:
  assumes "array_min ds = Inr lo"
  shows "elements ds \<noteq> [] \<and> lo \<in> set (elements ds) \<and> (\<forall>v \<in> set (elements ds). lo \<le> v)"
proof -
  obtain x xs where e: "elements ds = x # xs" and lo: "lo = fold min xs x"
    using assms by (auto simp: array_min_def split: list.splits)
  have "lo = Min (set (x # xs))" unfolding lo by (rule Min.set_eq_fold [symmetric])
  then show ?thesis using e
    by (metis List.finite_set Min_in Min_le list.distinct(1) set_empty)
qed

lemma array_max_bounds:
  assumes "array_max ds = Inr hi"
  shows "elements ds \<noteq> [] \<and> hi \<in> set (elements ds) \<and> (\<forall>v \<in> set (elements ds). v \<le> hi)"
proof -
  obtain x xs where e: "elements ds = x # xs" and hi: "hi = fold max xs x"
    using assms by (auto simp: array_max_def split: list.splits)
  have "hi = Max (set (x # xs))" unfolding hi by (rule Max.set_eq_fold [symmetric])
  then show ?thesis using e
    by (metis List.finite_set Max_in Max_ge list.distinct(1) set_empty)
qed









lemma trunc_zero_scaled:
  assumes "lo \<le> v" "v \<le> hi" "lo \<noteq> hi" "0 \<le> (k::int)"
  shows "0 \<le> trunc_zero ((v - lo) / (hi - lo) * of_int k) \<and> trunc_zero ((v - lo) / (hi - lo) * of_int k) \<le> k"
proof -
  have pos: "0 < hi - lo" using assms by simp
  have q0: "0 \<le> (v - lo) / (hi - lo)" using assms pos by simp
  have q1: "(v - lo) / (hi - lo) \<le> 1" using assms pos by simp
  have k0: "(0::rat) \<le> of_int k" using assms by simp
  have a: "0 \<le> (v - lo) / (hi - lo) * of_int k" using q0 k0 by (rule mult_nonneg_nonneg)
  have b: "(v - lo) / (hi - lo) * of_int k \<le> of_int k"
    using mult_right_mono [OF q1 k0] by simp
  have "trunc_zero ((v - lo) / (hi - lo) * of_int k) = \<lfloor>(v - lo) / (hi - lo) * of_int k\<rfloor>"
    using a by (simp add: trunc_zero_def)
  moreover have "0 \<le> \<lfloor>(v - lo) / (hi - lo) * of_int k\<rfloor>" using a by simp
  moreover have "\<lfloor>(v - lo) / (hi - lo) * of_int k\<rfloor> \<le> k" using b by (simp add: floor_le_iff)
  ultimately show ?thesis by simp
qed

lemma png_pixel_range:
  assumes "lo \<le> v" "v \<le> hi" "lo \<noteq> hi"
  shows "(\<exists>p. png_pixel False lo hi v = Some p \<and> 0 \<le> p \<and> p \<le> 255)"
    and "(\<exists>p. png_pixel True lo hi v = Some p \<and> 0 \<le> p \<and> p \<le> 65535)"
  using trunc_zero_scaled [OF assms, of 255] trunc_zero_scaled [OF assms, of 65535] assms(3)
  by (simp_all add: png_pixel_def np_divide_def astype_uint_def Let_def)

lemma png_pixel_constant: "png_pixel b lo lo v = None"
  by (simp add: png_pixel_def np_divide_def)


lemma png_pixel_midpoint:
  "png_pixel False 0 10 5 = Some 127" "png_pixel True 0 10 5 = Some 32767"
  by (simp_all add: png_pixel_def np_divide_def astype_uint_def trunc_zero_def floor_eq_iff)

lemma png_pixel_ends:
  "png_pixel b 0 10 0 = Some 0" "png_pixel False 0 10 10 = Some 255"
  "png_pixel True 0 10 10 = Some 65535"
  by (simp_all add: png_pixel_def np_divide_def astype_uint_def trunc_zero_def)

lemma png_images_defined:
  assumes "array_min ds = Inr lo" "array_max ds = Inr hi"
  shows "png_images b ds = Inr (map (map (map (png_pixel b lo hi))) ds)"
  by (simp add: png_images_def assms)

text \<open>
  C9. For a depth sequence with minimum 0 and maximum 10, a pixel of depth 5
  is written as 127 in the 8-bit images (127.5 truncated) and as 32767 in the
  16-bit images (32767.5 truncated): of the two candidates the truncation
  toward zero of \<open>astype\<close> picks the lower one.
\<close>

theorem png_midpoint:
  assumes "array_min ds = Inr 0" and "array_max ds = Inr 10"
    and "f < length ds" and "r < length (ds ! f)" and "c < length (ds ! f ! r)"
    and "ds ! f ! r ! c = 5"
  shows "\<exists>imgs8 imgs16.
           png_images False ds = Inr imgs8 \<and> imgs8 ! f ! r ! c = Some 127 \<and>
           png_images True ds = Inr imgs16 \<and> imgs16 ! f ! r ! c = Some 32767"
proof -
  show ?thesis
    using assms(3-6) by (simp add: png_images_defined [OF assms(1,2)] png_pixel_midpoint)
qed

theorem png_midpoint_witness:
  "array_min [[[0, 5, 10]]] = Inr 0 \<and> array_max [[[0, 5, 10]]] = Inr 10 \<and>
   [[[0, 5, 10 :: rat]]] ! 0 ! 0 ! 1 = 5 \<and>
   png_images False [[[0, 5, 10]]] = Inr [[[Some 0, Some 127, Some 255]]] \<and>
   png_images True [[[0, 5, 10]]] = Inr [[[Some 0, Some 32767, Some 65535]]]"
proof -
  have lo: "array_min [[[0, 5, 10]]] = Inr 0" by (simp add: array_min_def elements_def)
  have hi: "array_max [[[0, 5, 10]]] = Inr 10" by (simp add: array_max_def elements_def)
  have "\<exists>imgs8 imgs16.
           png_images False [[[0, 5, 10]]] = Inr imgs8 \<and> imgs8 ! 0 ! 0 ! 1 = Some 127 \<and>
           png_images True [[[0, 5, 10]]] = Inr imgs16 \<and> imgs16 ! 0 ! 0 ! 1 = Some 32767"
    using png_midpoint [OF lo hi, of 0 0 1] by simp
  then show ?thesis
    using lo hi by (simp add: png_images_def png_pixel_midpoint png_pixel_ends)
qed

text \<open>
  C10. The rescaling divides by \<open>d_max - d_min\<close> without a guard.  When
  minimum and maximum of the sequence differ, every pixel of every 8-bit
  image is a number in \<open>[0, 255]\<close> and every pixel of every 16-bit image a
  number in \<open>[0, 65535]\<close>; when they are equal (a constant sequence) the
  divisor is zero and every pixel takes the branch of the division by zero,
  in which no number is produced.
\<close>

theorem png_range:
  assumes "array_min ds = Inr lo" and "array_max ds = Inr hi"
  shows "\<exists>imgs8 imgs16.
           png_images False ds = Inr imgs8 \<and> png_images True ds = Inr imgs16 \<and>
           (lo \<noteq> hi \<longrightarrow>
              (\<forall>q \<in> set (concat (concat imgs8)). \<exists>p. q = Some p \<and> 0 \<le> p \<and> p \<le> 255) \<and>
              (\<forall>q \<in> set (concat (concat imgs16)). \<exists>p. q = Some p \<and> 0 \<le> p \<and> p \<le> 65535)) \<and>
           (lo = hi \<longrightarrow>
              hi - lo = 0 \<and>
              (\<forall>q \<in> set (concat (concat imgs8)). q = None) \<and>
              (\<forall>q \<in> set (concat (concat imgs16)). q = None))"
proof -
  have pix: "set (concat (concat (map (map (map (png_pixel b lo hi))) ds))) =
               png_pixel b lo hi ` set (elements ds)" for b
    by (simp add: elements_def map_concat [symmetric])
  have bounds: "\<forall>v \<in> set (elements ds). lo \<le> v \<and> v \<le> hi"
    using array_min_bounds [OF assms(1)] array_max_bounds [OF assms(2)] by blast
  have a: "lo \<noteq> hi \<Longrightarrow> v \<in> set (elements ds) \<Longrightarrow>
             (\<exists>p. png_pixel False lo hi v = Some p \<and> 0 \<le> p \<and> p \<le> 255) \<and>
             (\<exists>p. png_pixel True lo hi v = Some p \<and> 0 \<le> p \<and> p \<le> 65535)" for v
    using png_pixel_range [of lo v hi] bounds by blast
  have b: "lo = hi \<Longrightarrow> png_pixel b lo hi v = None" for b v
    by (simp add: png_pixel_constant)
  have c: "lo \<noteq> hi \<longrightarrow>
      (\<forall>q \<in> png_pixel False lo hi ` set (elements ds). \<exists>p. q = Some p \<and> 0 \<le> p \<and> p \<le> 255) \<and>
      (\<forall>q \<in> png_pixel True lo hi ` set (elements ds). \<exists>p. q = Some p \<and> 0 \<le> p \<and> p \<le> 65535)"
    using a by blast
  have d: "lo = hi \<longrightarrow> hi - lo = 0 \<and>
      (\<forall>q \<in> png_pixel False lo hi ` set (elements ds). q = None) \<and>
      (\<forall>q \<in> png_pixel True lo hi ` set (elements ds). q = None)"
    using b by simp
  show ?thesis
    unfolding png_images_defined [OF assms]
    using c d by (simp only: pix sum.inject simp_thms ex_simps)
qed

theorem png_range_witness:
  "array_min [[[0, 5, 10]]] = Inr 0 \<and> array_max [[[0, 5, 10]]] = Inr 10 \<and>
   png_images False [[[0, 5, 10]]] = Inr [[[Some 0, Some 127, Some 255]]] \<and>
   array_min [[[3, 3]]] = Inr 3 \<and> array_max [[[3, 3]]] = Inr 3 \<and>
   png_images False [[[3, 3]]] = Inr [[[None, None]]] \<and>
   png_images True [[[3, 3]]] = Inr [[[None, None]]]"
proof -
  have lo: "array_min [[[0, 5, 10]]] = Inr 0" by (simp add: array_min_def elements_def)
  have hi: "array_max [[[0, 5, 10]]] = Inr 10" by (simp add: array_max_def elements_def)
  have lo3: "array_min [[[3, 3]]] = Inr 3" by (simp add: array_min_def elements_def)
  have hi3: "array_max [[[3, 3]]] = Inr 3" by (simp add: array_max_def elements_def)
  have e: "png_images False [[[0, 5, 10]]] = Inr [[[Some 0, Some 127, Some 255]]]"
    by (simp add: png_images_def lo hi png_pixel_midpoint png_pixel_ends)
  have "png_images False [[[3, 3]]] = Inr [[[None, None]]] \<and>
        png_images True [[[3, 3]]] = Inr [[[None, None]]]"
    using png_range [OF lo3 hi3] by (auto simp: png_images_def lo3 hi3)
  moreover note png_range [OF lo hi]
  ultimately show ?thesis using lo hi lo3 hi3 e by simp
qed

subsection \<open>Test-time augmentation\<close>

lemma shape_eqD:
  assumes "shape a = shape b"
  shows "length a = length b" and "r < length a \<Longrightarrow> length (a ! r) = length (b ! r)"
proof -
  show l: "length a = length b"
    using arg_cong [OF assms, of length] by (simp add: shape_def)
  assume r: "r < length a"
  have "map length a ! r = map length b ! r" using assms by (simp add: shape_def)
  then show "length (a ! r) = length (b ! r)" using r l by simp
qed

lemma shape_flip: "shape (np_flip_axis1 a) = shape a"
  by (simp add: shape_def np_flip_axis1_def)

lemma shapes_flip: "map shape (map np_flip_axis1 xs) = map shape xs"
  by (simp add: shape_flip)

lemma shape_sum:
  "shape a = shape b \<Longrightarrow> shape (map (map h) (map2 (map2 g) a b)) = shape a"
proof (induction a arbitrary: b)
  case Nil
  then show ?case by (simp add: shape_def)
next
  case (Cons x a)
  then obtain y b' where b: "b = y # b'" by (cases b) (auto simp: shape_def)
  with Cons.prems have "length x = length y" "shape a = shape b'" by (auto simp: shape_def)
  with Cons.IH [of b'] b show ?case by (simp add: shape_def)
qed

lemma average_all_same_shapes:
  "map shape as = map shape bs \<Longrightarrow>
     average_all as bs =
       Inr (map2 (\<lambda>a b. map (map (\<lambda>x. x / 2)) (map2 (map2 (+)) a b)) as bs)"
proof (induction as arbitrary: bs)
  case Nil
  then show ?case by simp
next
  case (Cons a as)
  then obtain b bs' where b: "bs = b # bs'" by (cases bs) auto
  with Cons.prems have s: "shape a = shape b" "map shape as = map shape bs'" by auto
  show ?case using Cons.IH [OF s(2)] s(1) b by (simp add: np_add_def)
qed

lemma np_stackD:
  assumes "np_stack xs = Inr ys"
  shows "ys = xs" and "xs \<noteq> []" and "\<forall>a \<in> set xs. shape a = shape (hd xs)"
proof -
  show ne: "xs \<noteq> []"
  proof
    assume "xs = []"
    then have "np_stack xs = Inl NeedAtLeastOneArray" unfolding np_stack_def by simp
    with assms show False by (simp only: sum.distinct)
  qed
  show all: "\<forall>a \<in> set xs. shape a = shape (hd xs)"
  proof (rule ccontr)
    assume n: "\<not> (\<forall>a \<in> set xs. shape a = shape (hd xs))"
    have "np_stack xs = Inl ArraysNotSameShape"
      unfolding np_stack_def if_not_P [OF ne] if_not_P [OF n] ..
    with assms show False by (simp only: sum.distinct)
  qed
  have "np_stack xs = Inr xs"
    unfolding np_stack_def if_not_P [OF ne] if_P [OF all] ..
  with assms show "ys = xs" by (simp only: sum.inject)
qed

lemma np_stackI:
  assumes "xs \<noteq> []" and "\<forall>a \<in> set xs. shape a = shape (hd xs)"
  shows "np_stack xs = Inr xs"
  unfolding np_stack_def if_not_P [OF assms(1)] if_P [OF assms(2)] ..

lemma np_stack_same:
  assumes "np_stack xs = Inr ys" and "map shape zs = map shape xs"
  shows "np_stack zs = Inr zs"
proof -
  note xs = np_stackD(2,3) [OF assms(1)]
  have zs: "zs \<noteq> []" using xs(1) assms(2) by (cases zs) simp_all
  have "hd (map shape zs) = hd (map shape xs)" by (simp only: assms(2))
  then have hd: "shape (hd zs) = shape (hd xs)"
    by (simp only: hd_map [OF zs] hd_map [OF xs(1)])
  have "shape a = shape (hd zs)" if "a \<in> set zs" for a
  proof -
    have "shape a \<in> set (map shape zs)" using that by simp
    then have "shape a \<in> set (map shape xs)" by (simp only: assms(2))
    then obtain x where "x \<in> set xs" "shape a = shape x" by (auto simp del: map_map)
    then show ?thesis using xs(2) hd by metis
  qed
  then have "\<forall>a \<in> set zs. shape a = shape (hd zs)" by blast
  with zs show ?thesis by (rule np_stackI)
qed

lemma avg_pixel:
  assumes "shape a = shape b" and "r < length a" and "c < length (a ! r)"
  shows "map (map (\<lambda>x. x / 2)) (map2 (map2 (+)) a b) ! r ! c = (a ! r ! c + b ! r ! c) / (2::rat)"
  using assms shape_eqD [OF assms(1)] by simp

lemma avg_between: "min a b \<le> (a + b) / (2::rat) \<and> (a + b) / 2 \<le> max a b"
  by (simp add: min_def max_def field_simps)

text \<open>
  C7. When the frames stack and both passes of the engine return one depth
  map per frame, of the frame's height and width, the depth sequence with
  test-time augmentation has as many frames as the one without, frame by
  frame of the same shape, and each of its pixels is the mean of the pixel of
  the first pass and the pixel of the mirrored-back second pass, hence between
  the smaller and the larger of the two.
\<close>

theorem tta_shape_and_bounds:
  assumes st: "np_stack frames = Inr frames_array"
    and o: "infer_video_depth env frames_array afps input_size device (FP32 v) = Inr (d_orig, fps)"
    and f: "infer_video_depth env (map np_flip_axis1 frames) afps input_size device (FP32 v)
              = Inr (d_flip, fps')"
    and so: "map shape d_orig = map shape frames_array"
    and sf: "map shape d_flip = map shape (map np_flip_axis1 frames)"
  shows "\<exists>d_tta.
           infer_depths env (v\<lparr>TTA := True\<rparr>) input_size device frames frames_array afps
             = Inr (d_tta, fps) \<and>
           infer_depths env (v\<lparr>TTA := False\<rparr>) input_size device frames frames_array afps
             = Inr (d_orig, fps) \<and>
           length d_tta = length d_orig \<and> map shape d_tta = map shape d_orig \<and>
           (\<forall>t r c. t < length d_tta \<longrightarrow> r < length (d_tta ! t) \<longrightarrow> c < length (d_tta ! t ! r) \<longrightarrow>
              d_tta ! t ! r ! c
                = (d_orig ! t ! r ! c + np_flip_axis1 (d_flip ! t) ! r ! c) / 2 \<and>
              min (d_orig ! t ! r ! c) (np_flip_axis1 (d_flip ! t) ! r ! c) \<le> d_tta ! t ! r ! c \<and>
              d_tta ! t ! r ! c \<le> max (d_orig ! t ! r ! c) (np_flip_axis1 (d_flip ! t) ! r ! c))"
proof -
  let ?unflipped = "map np_flip_axis1 d_flip"
  define avg where "avg = map2 (\<lambda>a b. map (map (\<lambda>x. x / 2)) (map2 (map2 (+)) a b)) d_orig ?unflipped"
  have fa: "frames_array = frames" using st by (rule np_stackD(1))
  have "map shape ?unflipped = map shape d_flip" by (rule shapes_flip)
  also have "\<dots> = map shape (map np_flip_axis1 frames)" by (rule sf)
  also have "\<dots> = map shape frames" by (rule shapes_flip)
  also have "\<dots> = map shape d_orig" using so fa by simp
  finally have sb: "map shape d_orig = map shape ?unflipped" by (rule sym)
  have len: "length d_orig = length ?unflipped"
    using arg_cong [OF sb, of length] by simp
  have stf: "np_stack (map np_flip_axis1 frames) = Inr (map np_flip_axis1 frames)"
    using np_stack_same [OF st shapes_flip] .
  have av: "average_all d_orig ?unflipped = Inr avg"
    unfolding avg_def using sb by (rule average_all_same_shapes)
  have fr: "shape (d_orig ! t) = shape (?unflipped ! t)" if "t < length d_orig" for t
  proof -
    have "map shape d_orig ! t = map shape ?unflipped ! t" by (simp only: sb)
    then show ?thesis using that len by (simp only: nth_map length_map)
  qed
  have sav: "map shape avg = map shape d_orig"
  proof (rule nth_equalityI)
    show "length (map shape avg) = length (map shape d_orig)" using len by (simp add: avg_def)
  next
    fix t assume "t < length (map shape avg)"
    then have t: "t < length d_orig" using len by (simp add: avg_def)
    have "avg ! t = map (map (\<lambda>x. x / 2)) (map2 (map2 (+)) (d_orig ! t) (?unflipped ! t))"
      using t len by (simp add: avg_def)
    then have "shape (avg ! t) = shape (d_orig ! t)"
      using shape_sum [OF fr [OF t]] by (simp only:)
    then show "map shape avg ! t = map shape d_orig ! t"
      using t len by (simp add: avg_def)
  qed
  have "map shape avg = map shape frames" using sav so fa by (simp only:)
  then have sta: "np_stack avg = Inr avg" by (rule np_stack_same [OF st])
  have tta: "infer_depths env (v\<lparr>TTA := True\<rparr>) input_size device frames frames_array afps
               = Inr (avg, fps)"
    unfolding infer_depths_def by (simp add: o stf f av sta)
  have plain: "infer_depths env (v\<lparr>TTA := False\<rparr>) input_size device frames frames_array afps
               = Inr (d_orig, fps)"
    using o by (simp add: infer_depths_def)
  have pix: "avg ! t ! r ! c = (d_orig ! t ! r ! c + np_flip_axis1 (d_flip ! t) ! r ! c) / 2"
    if "t < length avg" "r < length (avg ! t)" "c < length (avg ! t ! r)" for t r c
  proof -
    have t: "t < length d_orig" using that(1) by (simp add: avg_def)
    have s: "shape (d_orig ! t) = shape (?unflipped ! t)" using fr [OF t] .
    have at: "avg ! t = map (map (\<lambda>x. x / 2)) (map2 (map2 (+)) (d_orig ! t) (?unflipped ! t))"
      using t len by (simp add: avg_def)
    have bt: "?unflipped ! t = np_flip_axis1 (d_flip ! t)" using t len by simp
    have r: "r < length (d_orig ! t)"
      using that(2) shape_eqD(1) [OF s] unfolding at by simp
    have c: "c < length (d_orig ! t ! r)"
      using that(3) r shape_eqD [OF s] unfolding at by simp
    show ?thesis unfolding at using avg_pixel [OF s r c] bt by simp
  qed
  have la: "length avg = length d_orig" using len by (simp add: avg_def)
  have all: "\<forall>t r c. t < length avg \<longrightarrow> r < length (avg ! t) \<longrightarrow> c < length (avg ! t ! r) \<longrightarrow>
              avg ! t ! r ! c
                = (d_orig ! t ! r ! c + np_flip_axis1 (d_flip ! t) ! r ! c) / 2 \<and>
              min (d_orig ! t ! r ! c) (np_flip_axis1 (d_flip ! t) ! r ! c) \<le> avg ! t ! r ! c \<and>
              avg ! t ! r ! c \<le> max (d_orig ! t ! r ! c) (np_flip_axis1 (d_flip ! t) ! r ! c)"
  proof (intro allI impI)
    fix t r c
    assume "t < length avg" "r < length (avg ! t)" "c < length (avg ! t ! r)"
    then have p: "avg ! t ! r ! c = (d_orig ! t ! r ! c + np_flip_axis1 (d_flip ! t) ! r ! c) / 2"
      by (rule pix)
    show "avg ! t ! r ! c
                = (d_orig ! t ! r ! c + np_flip_axis1 (d_flip ! t) ! r ! c) / 2 \<and>
              min (d_orig ! t ! r ! c) (np_flip_axis1 (d_flip ! t) ! r ! c) \<le> avg ! t ! r ! c \<and>
              avg ! t ! r ! c \<le> max (d_orig ! t ! r ! c) (np_flip_axis1 (d_flip ! t) ! r ! c)"
      unfolding p using avg_between by blast
  qed
  show ?thesis
    by (rule exI [of _ avg]) (intro conjI tta plain la sav all)
qed



theorem tta_shape_and_bounds_witness:
  "np_stack demo_frames = Inr demo_frames \<and>
   infer_video_depth demo_env demo_frames 30 518 ''cpu'' (FP32 demo_values) = Inr ([[[0, 5]]], 30) \<and>
   infer_video_depth demo_env (map np_flip_axis1 demo_frames) 30 518 ''cpu'' (FP32 demo_values)
     = Inr ([[[4, 1]]], 30) \<and>
   map shape [[[0, 5 :: rat]]] = map shape demo_frames \<and>
   map shape [[[4, 1 :: rat]]] = map shape (map np_flip_axis1 demo_frames) \<and>
   infer_depths demo_env (demo_values\<lparr>TTA := True\<rparr>) 518 ''cpu'' demo_frames demo_frames 30
     = Inr ([[[1 / 2, 9 / 2]]], 30) \<and>
   infer_depths demo_env (demo_values\<lparr>TTA := False\<rparr>) 518 ''cpu'' demo_frames demo_frames 30
     = Inr ([[[0, 5]]], 30)"
proof -
  have st: "np_stack demo_frames = Inr demo_frames"
    by (simp add: np_stack_def demo_frames_def)
  have o: "infer_video_depth demo_env demo_frames 30 518 ''cpu'' (FP32 demo_values)
             = Inr ([[[0, 5]]], 30)"
    by (simp add: demo_env_def demo_engine_def demo_frames_def)
  have f: "infer_video_depth demo_env (map np_flip_axis1 demo_frames) 30 518 ''cpu'' (FP32 demo_values)
             = Inr ([[[4, 1]]], 30)"
    by (simp add: demo_env_def demo_engine_def demo_frames_def np_flip_axis1_def)
  have so: "map shape [[[0, 5 :: rat]]] = map shape demo_frames"
    by (simp add: shape_def demo_frames_def)
  have sf: "map shape [[[4, 1 :: rat]]] = map shape (map np_flip_axis1 demo_frames)"
    by (simp add: shape_def demo_frames_def np_flip_axis1_def)
  obtain d_tta where
    t: "infer_depths demo_env (demo_values\<lparr>TTA := True\<rparr>) 518 ''cpu'' demo_frames demo_frames 30
          = Inr (d_tta, 30)"
    and p: "infer_depths demo_env (demo_values\<lparr>TTA := False\<rparr>) 518 ''cpu'' demo_frames demo_frames 30
          = Inr ([[[0, 5]]], 30)"
    using tta_shape_and_bounds [OF st o f so sf] by blast
  have "infer_depths demo_env (demo_values\<lparr>TTA := True\<rparr>) 518 ''cpu'' demo_frames demo_frames 30
          = Inr ([[[1 / 2, 9 / 2]]], 30)"
    by (simp add: infer_depths_def demo_env_def demo_engine_def demo_frames_def demo_values_def
          np_flip_axis1_def np_stack_def shape_def np_add_def)
  with st o f so sf p show ?thesis by (simp only: simp_thms)
qed

subsection \<open>The worker: evaluation\<close>

lemmas worker_defs = process_videos_threaded_def prepare_def resolve_input_def
    py_int_def strip_def is_space_def is_digit_def files_to_process_def load_error_def model_configs_def
    checkpoint_path_def process_file_def try_read_def np_stack_def shape_def
    infer_depths_def make_output_dir_def save_stage_def save_outputs_def output_steps_def
    no_heap_def reading_def step_src_def step_vis_def save_depth_video_def step_npz_def step_exr_def
    step_png_def step_resume_def basename_def sep_def splitext_root_def path_join_def dirname_def
    invert_depths_def array_max_def array_min_def elements_def Let_def
    lower_def lower_char_def endswith_def video_extensions_def

lemmas demo_defs = demo_values_def demo_env_def demo_frames_def demo_engine_def
    demo_folder_values_def demo_missing_path_values_def src_write_fails_def demo_env_disk_full_def
    output_dir_fails_def nothing_exists_def demo_env_no_output_dir_def reads_no_frames_def
    demo_env_no_frames_def lists_notes_only_def demo_env_empty_folder_def checkpoint_missing_def
    demo_env_no_checkpoint_def leaves_nothing_def demo_env_scrambling_def demo_raw_values_def
    exact_subtract_def first_unreadable_second_empty_def demo_env_second_empty_def

lemma pad5_0: "pad5 0 = ''00000''"
  by (simp add: pad5_def str_nat.simps eval_nat_numeral)

subsection \<open>The output stage\<close>

lemma run_steps_raise:
  "run_steps pre h = (None, evs1, h1) \<Longrightarrow> st h1 = (Some e, evs2, h2) \<Longrightarrow>
     run_steps (pre @ st # post) h = (Some e, evs1 @ evs2, h2)"
proof (induction pre arbitrary: h evs1)
  case Nil
  then show ?case by simp
next
  case (Cons s pre)
  obtain r a h' where s: "s h = (r, a, h')" by (cases "s h") auto
  show ?case
  proof (cases r)
    case None
    obtain r' b h'' where p: "run_steps pre h' = (r', b, h'')" by (cases "run_steps pre h'") auto
    with Cons.prems(1) s None have "r' = None" "evs1 = a @ b" "h'' = h1" by simp_all
    with Cons.IH [of h' b] p Cons.prems(2) s None show ?thesis by simp
  next
    case (Some x)
    with Cons.prems(1) s show ?thesis by simp
  qed
qed

text \<open>
  C1, as stated, fails: with the source clip and the archive both configured
  and the source clip failing to write, the whole trace of the worker holds
  the attempt to write the source clip, one error notification and the
  progress update; neither the depth video nor the archive is attempted.
\<close>

theorem output_failure_counterexample:
  "CREATE_SRC demo_values \<and> SAVE_NPZ demo_values \<and>
   process_videos_threaded demo_env_disk_full demo_values =
   ([Put (STATUS_UPDATE LoadingModel), Put (SET_MAX 1),
     Put (STATUS_UPDATE (ProcessingFile 1 1 ''a.mp4'')),
     Call (SaveVideoFrames [[[(0, 0, 0), (4, 0, 0)]]] ''/out/a_src.mp4'' 30 18),
     Put (ERROR (SaveOutputsError ''a.mp4'' (Exc ''disk full''))),
     Put (PROGRESS_UPDATE 1), Put (THREAD_DONE Completed)],
    Returns)"
  by (simp add: worker_defs demo_defs)

text \<open>
  C1, amended. The outputs of a file are written inside one guarded block:
  when the write of one output raises, the outputs before it have been
  attempted, none of the outputs after it is attempted, the failure is
  reported as one file-scoped error notification, and the progress update
  of the file follows.
\<close>

theorem output_failure_skips_rest:
  assumes "output_steps env v i file_path frames fps = pre @ st # post"
    and "run_steps pre [depths] = (None, evs1, h1)"
    and "st h1 = (Some e, evs2, h2)"
  shows "save_stage env v i file_path frames depths fps =
           evs1 @ evs2 @ [Put (ERROR (SaveOutputsError (basename file_path) e)),
                          Put (PROGRESS_UPDATE (i + 1))]"
proof -
  have "run_steps (pre @ st # post) [depths] = (Some e, evs1 @ evs2, h2)"
    using assms(2,3) by (rule run_steps_raise)
  then show ?thesis
    by (simp add: save_stage_def save_outputs_def assms(1))
qed

theorem output_failure_skips_rest_witness:
  "save_stage demo_env_disk_full demo_values 0 ''/in/a.mp4'' demo_frames [[[0, 5]]] 30 =
   [Call (SaveVideoFrames demo_frames ''/out/a_src.mp4'' 30 18),
    Put (ERROR (SaveOutputsError ''a.mp4'' (Exc ''disk full''))),
    Put (PROGRESS_UPDATE 1)]"
proof -
  let ?env = "demo_env_disk_full"
  have 1: "output_steps ?env demo_values 0 ''/in/a.mp4'' demo_frames 30 =
             [] @ no_heap (step_src ?env demo_values 0 demo_frames ''/out/a_src.mp4'' 30)
                # tl (output_steps ?env demo_values 0 ''/in/a.mp4'' demo_frames 30)"
    by (simp add: output_steps_def Let_def basename_def sep_def splitext_root_def path_join_def
          demo_values_def)
  have 2: "run_steps [] [[[[0, 5]]]] = (None, [], [[[[0, 5]]]])" by simp
  have 3: "no_heap (step_src ?env demo_values 0 demo_frames ''/out/a_src.mp4'' 30) [[[[0, 5]]]] =
             (Some (Exc ''disk full''),
              [Call (SaveVideoFrames demo_frames ''/out/a_src.mp4'' 30 18)], [[[[0, 5]]]])"
    by (simp add: no_heap_def step_src_def demo_values_def demo_env_def demo_env_disk_full_def
          src_write_fails_def)
  have "save_stage ?env demo_values 0 ''/in/a.mp4'' demo_frames [[[0, 5]]] 30 =
          [] @ [Call (SaveVideoFrames demo_frames ''/out/a_src.mp4'' 30 18)] @
          [Put (ERROR (SaveOutputsError (basename ''/in/a.mp4'') (Exc ''disk full''))),
           Put (PROGRESS_UPDATE (0 + 1))]"
    using 1 2 3 by (rule output_failure_skips_rest)
  then show ?thesis by (simp add: basename_def sep_def)
qed

subsection \<open>Exceptions that leave the worker\<close>

text \<open>
  C2. The creation of the output directory (lines 621--622) and the assembly
  of the frame array (line 590) stand outside every \<open>try\<close>.  When the output
  directory cannot be created, or when the frame source returns no frame,
  the exception leaves the thread body: the queue receives no error
  notification, no progress update and no done notification.
\<close>

theorem uncaught_exception_kills_worker:
  "process_videos_threaded demo_env_no_output_dir demo_values =
   ([Put (STATUS_UPDATE LoadingModel), Put (SET_MAX 1),
     Put (STATUS_UPDATE (ProcessingFile 1 1 ''a.mp4'')), Call (Makedirs ''/out'')],
    Raises (Exc ''Permission denied''))
   \<and>
   process_videos_threaded demo_env_no_frames demo_values =
   ([Put (STATUS_UPDATE LoadingModel), Put (SET_MAX 1),
     Put (STATUS_UPDATE (ProcessingFile 1 1 ''a.mp4''))],
    Raises NeedAtLeastOneArray)"
  by (simp add: worker_defs demo_defs)

text \<open>
  C3. A batch of three files in which exactly one file fails to decode does
  not get its three progress updates when an exception leaves the worker:
  with an output directory that cannot be created the worker raises while
  processing the first file, before any progress update and before the
  unreadable second file is reached; with a second file that decodes to no
  frame, the unreadable first file gets its error notification and its
  progress update, and the worker raises on the second file, after one
  progress update of three.
\<close>

theorem unreadable_file_batch_cut_short:
  "process_videos_threaded demo_env_no_output_dir demo_folder_values =
   ([Put (STATUS_UPDATE LoadingModel), Put (SET_MAX 3),
     Put (STATUS_UPDATE (ProcessingFile 1 3 ''a.mp4'')), Call (Makedirs ''/out'')],
    Raises (Exc ''Permission denied''))
   \<and>
   process_videos_threaded demo_env_second_empty demo_folder_values =
   ([Put (STATUS_UPDATE LoadingModel), Put (SET_MAX 3),
     Put (STATUS_UPDATE (ProcessingFile 1 3 ''a.mp4'')),
     Put (ERROR (ReadFramesError ''a.mp4'' (Exc ''moov atom not found''))),
     Put (PROGRESS_UPDATE 1),
     Put (STATUS_UPDATE (ProcessingFile 2 3 ''b.MKV''))],
    Raises NeedAtLeastOneArray)"
  by (simp add: worker_defs demo_defs)

text \<open>
  C4. A run that ends on a configuration error (a path that is neither file
  nor folder, a folder without videos, a missing checkpoint) puts the error
  notification on the queue and returns: no done notification is delivered.
\<close>

theorem config_error_without_done:
  "process_videos_threaded demo_env demo_missing_path_values
     = ([Put (ERROR (InvalidInputPath ''/nowhere''))], Returns)
   \<and> filter is_done (notifications (fst (process_videos_threaded demo_env demo_missing_path_values)))
     = []
   \<and> process_videos_threaded demo_env_empty_folder demo_folder_values
     = ([Put (ERROR NoVideoFiles)], Returns)
   \<and> process_videos_threaded demo_env_no_checkpoint demo_values
     = ([Put (STATUS_UPDATE LoadingModel), Put (ERROR (CheckpointNotFound ''vitl''))], Returns)"
  by (simp add: worker_defs demo_defs is_done_def)

subsection \<open>Raw artifacts and the visualization copy\<close>

lemma calls_append: "calls (a @ b) = calls a @ calls b"
  by (induction a rule: calls.induct) simp_all

lemma notifications_append: "notifications (a @ b) = notifications a @ notifications b"
  by (induction a rule: notifications.induct) simp_all

text \<open>Steps that only read the array at address 0 and leave the heap as it is.\<close>

lemma run_steps_readers:
  assumes "\<And>st h. st \<in> set sts \<Longrightarrow> snd (snd (st h)) = h"
    and "\<And>st h h'. st \<in> set sts \<Longrightarrow> h ! 0 = h' ! 0 \<Longrightarrow>
            fst (st h) = fst (st h') \<and> fst (snd (st h)) = fst (snd (st h'))"
    and "h ! 0 = h' ! 0"
  shows "fst (run_steps sts h) = fst (run_steps sts h') \<and>
         fst (snd (run_steps sts h)) = fst (snd (run_steps sts h')) \<and>
         snd (snd (run_steps sts h)) = h"
  using assms
proof (induction sts)
  case Nil
  then show ?case by simp
next
  case (Cons st sts)
  have m: "st \<in> set (st # sts)" by simp
  obtain r a k where 1: "st h = (r, a, k)" by (cases "st h") auto
  obtain r' a' k' where 2: "st h' = (r', a', k')" by (cases "st h'") auto
  have k: "k = h" using Cons.prems(1) [OF m, of h] unfolding 1 by simp
  have k': "k' = h'" using Cons.prems(1) [OF m, of h'] unfolding 2 by simp
  have ra: "r = r'" "a = a'"
    using Cons.prems(2) [OF m Cons.prems(3)] unfolding 1 2 by simp_all
  have ih: "fst (run_steps sts h) = fst (run_steps sts h') \<and>
         fst (snd (run_steps sts h)) = fst (snd (run_steps sts h')) \<and>
         snd (snd (run_steps sts h)) = h"
  proof (rule Cons.IH)
    show "snd (snd (s x)) = x" if "s \<in> set sts" for s x
      using that by (intro Cons.prems(1)) simp
    show "fst (s x) = fst (s y) \<and> fst (snd (s x)) = fst (snd (s y))"
      if "s \<in> set sts" "x ! 0 = y ! 0" for s x y
      using that by (intro Cons.prems(2)) simp_all
    show "h ! 0 = h' ! 0" by (rule Cons.prems(3))
  qed
  show ?case
    unfolding run_steps.simps 1 2 k k' ra using ih by (cases r') (simp_all add: split_beta)
qed

lemma reading_reader:
  "snd (snd (reading 0 f h)) = h"
  "h ! 0 = h' ! 0 \<Longrightarrow> fst (reading 0 f h) = fst (reading 0 f h') \<and>
      fst (snd (reading 0 f h)) = fst (snd (reading 0 f h'))"
  by (simp_all add: reading_def split_beta)

lemma no_heap_reader:
  "snd (snd (no_heap r h)) = h"
  "fst (no_heap r h) = fst (no_heap r h') \<and> fst (snd (no_heap r h)) = fst (snd (no_heap r h'))"
  by (simp_all add: no_heap_def)

lemma invert_defined: "elements d \<noteq> [] \<Longrightarrow> \<exists>inv. invert_depths sub d = Inr inv"
  by (auto simp: invert_depths_def array_max_def split: list.splits)

lemma step_vis_result:
  assumes "elements depths \<noteq> []"
  shows "\<exists>shown h'. step_vis env v i 0 path fps [depths] =
           (raises env i SaveDepthVideo,
            [Call (SaveVideoDepths shown path fps (\<not> SAVE_COLOR v) (MP4_CRF v))], h')
         \<and> h' ! 0 = depths"
proof -
  obtain inv where "invert_depths (float32_subtract env) depths = Inr inv"
    using invert_defined [OF assms] by blast
  then show ?thesis
    by (simp add: step_vis_def save_depth_video_def Let_def)
qed


lemma is_raw_vis [simp]: "\<not> is_raw (SaveVideoDepths d p f g c)"
  by (simp add: is_raw_def)

lemma raw_calls_independent:
  assumes "elements depths \<noteq> []"
  shows "filter is_raw (calls (fst (snd (save_outputs (env\<lparr>save_video_leaves := g\<rparr>)
                                          (v\<lparr>INVERT_METRIC := b\<rparr>) i file_path frames depths fps))))
           = filter is_raw (calls (fst (snd (save_outputs env v i file_path frames depths fps))))"
    and "fst (save_outputs (env\<lparr>save_video_leaves := g\<rparr>) (v\<lparr>INVERT_METRIC := b\<rparr>)
               i file_path frames depths fps)
           = fst (save_outputs env v i file_path frames depths fps)"
    and "snd (snd (save_outputs env v i file_path frames depths fps)) ! 0 = depths"
proof -
  let ?env = "env\<lparr>save_video_leaves := g\<rparr>" and ?v = "v\<lparr>INVERT_METRIC := b\<rparr>"
  define base where "base = splitext_root (basename file_path)"
  define src where "src = step_src env v i frames (path_join (OUTPUT_DIR v) (base @ ''_src.mp4'')) fps"
  define rest where "rest =
    [reading 0 (step_npz env v i (path_join (OUTPUT_DIR v) (base @ ''_depths.npz''))),
     reading 0 (step_exr env v i (path_join (OUTPUT_DIR v) (base @ ''_depths_exr''))),
     reading 0 (step_png env v i (path_join (OUTPUT_DIR v) (base @ ''_depth_png''))),
     no_heap (step_resume env v i file_path)]"
  define vpath where "vpath = path_join (OUTPUT_DIR v) (base @ ''_depth.mp4'')"
  have sel: "raises ?env = raises env" "path_exists ?env = path_exists env"
    "SAVE_NPZ ?v = SAVE_NPZ v" "SAVE_EXR ?v = SAVE_EXR v" "SAVE_PNG ?v = SAVE_PNG v"
    "PNG_16BIT ?v = PNG_16BIT v" "PNG_COMPRESSION ?v = PNG_COMPRESSION v"
    "RESUME ?v = RESUME v" "CREATE_SRC ?v = CREATE_SRC v" "MP4_CRF ?v = MP4_CRF v"
    "OUTPUT_DIR ?v = OUTPUT_DIR v" "SAVE_COLOR ?v = SAVE_COLOR v"
    by simp_all
  have same_npz: "step_npz ?env ?v i = step_npz env v i"
    by (intro ext) (simp only: step_npz_def sel)
  have same_exr: "step_exr ?env ?v i = step_exr env v i"
    by (intro ext) (simp only: step_exr_def sel)
  have same_png: "step_png ?env ?v i = step_png env v i"
    by (intro ext) (simp only: step_png_def sel)
  have same_res: "step_resume ?env ?v i = step_resume env v i"
    by (intro ext) (simp only: step_resume_def sel)
  have same_src: "step_src ?env ?v i = step_src env v i"
    by (intro ext) (simp only: step_src_def sel)
  have steps: "output_steps env v i file_path frames fps =
                 no_heap src # step_vis env v i 0 vpath fps # rest"
    by (simp add: output_steps_def Let_def src_def rest_def vpath_def base_def)
  have steps': "output_steps ?env ?v i file_path frames fps =
                 no_heap src # step_vis ?env ?v i 0 vpath fps # rest"
    by (simp only: output_steps_def Let_def src_def rest_def vpath_def base_def
          same_npz same_exr same_png same_res same_src sel)
  obtain shown h1 where vis: "step_vis env v i 0 vpath fps [depths] =
           (raises env i SaveDepthVideo,
            [Call (SaveVideoDepths shown vpath fps (\<not> SAVE_COLOR v) (MP4_CRF v))], h1)"
      and h1: "h1 ! 0 = depths"
    using step_vis_result [OF assms] by blast
  obtain shown' h2 where vis': "step_vis ?env ?v i 0 vpath fps [depths] =
           (raises env i SaveDepthVideo,
            [Call (SaveVideoDepths shown' vpath fps (\<not> SAVE_COLOR v) (MP4_CRF v))], h2)"
      and h2: "h2 ! 0 = depths"
    using step_vis_result [OF assms, of ?env ?v i vpath fps] unfolding sel by blast
  have readers: "fst (run_steps rest h2) = fst (run_steps rest h1) \<and>
         fst (snd (run_steps rest h2)) = fst (snd (run_steps rest h1)) \<and>
         snd (snd (run_steps rest h2)) = h2"
  proof (rule run_steps_readers)
    show "snd (snd (st h)) = h" if "st \<in> set rest" for st h
      using that unfolding rest_def by (auto simp: reading_def no_heap_def split_beta)
    show "fst (st h) = fst (st h') \<and> fst (snd (st h)) = fst (snd (st h'))"
      if "st \<in> set rest" "h ! 0 = h' ! 0" for st h h'
      using that unfolding rest_def by (auto simp: reading_def no_heap_def split_beta)
    show "h2 ! 0 = h1 ! 0" using h1 h2 by simp
  qed
  have keep: "snd (snd (run_steps rest h1)) = h1"
  proof -
    have "fst (run_steps rest h1) = fst (run_steps rest h1) \<and>
         fst (snd (run_steps rest h1)) = fst (snd (run_steps rest h1)) \<and>
         snd (snd (run_steps rest h1)) = h1"
    proof (rule run_steps_readers)
      show "snd (snd (st h)) = h" if "st \<in> set rest" for st h
        using that unfolding rest_def by (auto simp: reading_def no_heap_def split_beta)
      show "fst (st h) = fst (st h') \<and> fst (snd (st h)) = fst (snd (st h'))"
        if "st \<in> set rest" "h ! 0 = h' ! 0" for st h h'
        using that unfolding rest_def by (auto simp: reading_def no_heap_def split_beta)
      show "h1 ! 0 = h1 ! 0" ..
    qed
    then show ?thesis by simp
  qed
  obtain r1 a1 where s: "src = (r1, a1)" by (cases src) auto
  obtain r3 a3 k3 where t1: "run_steps rest h1 = (r3, a3, k3)" by (cases "run_steps rest h1") auto
  obtain r4 a4 k4 where t2: "run_steps rest h2 = (r4, a4, k4)" by (cases "run_steps rest h2") auto
  have eq: "r4 = r3" "a4 = a3" "k3 = h1" using readers keep t1 t2 by simp_all
  have A: "save_outputs env v i file_path frames depths fps =
             (case r1 of Some e \<Rightarrow> (Some e, a1, [depths])
              | None \<Rightarrow>
                 (case raises env i SaveDepthVideo of
                    Some e \<Rightarrow> (Some e,
                       a1 @ [Call (SaveVideoDepths shown vpath fps (\<not> SAVE_COLOR v) (MP4_CRF v))], h1)
                  | None \<Rightarrow> (r3,
                       a1 @ [Call (SaveVideoDepths shown vpath fps (\<not> SAVE_COLOR v) (MP4_CRF v))] @ a3,
                       h1)))"
    unfolding save_outputs_def steps
    by (simp add: no_heap_def s vis t1 eq split: option.splits)
  have B: "save_outputs ?env ?v i file_path frames depths fps =
             (case r1 of Some e \<Rightarrow> (Some e, a1, [depths])
              | None \<Rightarrow>
                 (case raises env i SaveDepthVideo of
                    Some e \<Rightarrow> (Some e,
                       a1 @ [Call (SaveVideoDepths shown' vpath fps (\<not> SAVE_COLOR v) (MP4_CRF v))], h2)
                  | None \<Rightarrow> (r3,
                       a1 @ [Call (SaveVideoDepths shown' vpath fps (\<not> SAVE_COLOR v) (MP4_CRF v))] @ a3,
                       k4)))"
    unfolding save_outputs_def steps'
    by (simp add: no_heap_def s vis' t2 eq split: option.splits)
  show "filter is_raw (calls (fst (snd (save_outputs ?env ?v i file_path frames depths fps))))
           = filter is_raw (calls (fst (snd (save_outputs env v i file_path frames depths fps))))"
    unfolding A B by (simp add: calls_append split: option.splits)
  show "fst (save_outputs ?env ?v i file_path frames depths fps)
           = fst (save_outputs env v i file_path frames depths fps)"
    unfolding A B by (simp split: option.splits)
  show "snd (snd (save_outputs env v i file_path frames depths fps)) ! 0 = depths"
    unfolding A using h1 by (simp split: option.splits)
qed

text \<open>
  C6. For every depth sequence with at least one value: the archive, EXR
  and PNG writes made with the inversion flag set are those made with the
  flag unset; with either setting they are the writes of a run in which the
  video writer leaves its array untouched and nothing is inverted; and the
  array \<open>depths\<close> (address 0) holds the original sequence at the end of the
  stage, whatever the video writer did to the array it was handed.
\<close>

theorem raw_artifacts_ignore_inversion:
  assumes "elements depths \<noteq> []"
  shows "filter is_raw (calls (fst (snd
             (save_outputs env (v\<lparr>INVERT_METRIC := True\<rparr>) i file_path frames depths fps))))
         = filter is_raw (calls (fst (snd
             (save_outputs env (v\<lparr>INVERT_METRIC := False\<rparr>) i file_path frames depths fps))))
       \<and> filter is_raw (calls (fst (snd
             (save_outputs env (v\<lparr>INVERT_METRIC := b\<rparr>) i file_path frames depths fps))))
         = filter is_raw (calls (fst (snd
             (save_outputs (env\<lparr>save_video_leaves := (\<lambda>d. d)\<rparr>) (v\<lparr>INVERT_METRIC := False\<rparr>)
                i file_path frames depths fps))))
       \<and> snd (snd (save_outputs env (v\<lparr>INVERT_METRIC := b\<rparr>) i file_path frames depths fps)) ! 0
         = depths"
proof -
  have 1: "filter is_raw (calls (fst (snd
             (save_outputs env (v\<lparr>INVERT_METRIC := True\<rparr>) i file_path frames depths fps))))
         = filter is_raw (calls (fst (snd
             (save_outputs env (v\<lparr>INVERT_METRIC := False\<rparr>) i file_path frames depths fps))))"
    using raw_calls_independent(1) [OF assms, where env = env and g = "save_video_leaves env"
            and v = "v\<lparr>INVERT_METRIC := False\<rparr>" and b = True]
    by simp
  have 2: "filter is_raw (calls (fst (snd
             (save_outputs env (v\<lparr>INVERT_METRIC := b\<rparr>) i file_path frames depths fps))))
         = filter is_raw (calls (fst (snd
             (save_outputs (env\<lparr>save_video_leaves := (\<lambda>d. d)\<rparr>) (v\<lparr>INVERT_METRIC := False\<rparr>)
                i file_path frames depths fps))))"
    using raw_calls_independent(1) [OF assms, where env = "env\<lparr>save_video_leaves := (\<lambda>d. d)\<rparr>"
            and g = "save_video_leaves env" and v = "v\<lparr>INVERT_METRIC := False\<rparr>" and b = b]
    by simp
  have 3: "snd (snd (save_outputs env (v\<lparr>INVERT_METRIC := b\<rparr>) i file_path frames depths fps)) ! 0
         = depths"
    using assms by (rule raw_calls_independent(3))
  show ?thesis using 1 2 3 by (intro conjI)
qed


theorem raw_artifacts_ignore_inversion_witness:
  "elements [[[0, 5]]] \<noteq> [] \<and>
   filter is_raw (calls (fst (snd
     (save_outputs demo_env_scrambling
        (demo_raw_values\<lparr>INVERT_METRIC := True\<rparr>)
        0 ''/in/a.mp4'' demo_frames [[[0, 5]]] 30)))) =
     [SavezCompressed ''/out/a_depths.npz'' [[[0, 5]]],
      ExrWrite ''/out/a_depths_exr/frame_00000.exr'' 2 1 [[0, 5]],
      ImWrite ''/out/a_depth_png/frame_00000.png'' [[Some 0, Some 255]] 1] \<and>
   filter is_raw (calls (fst (snd
     (save_outputs demo_env_scrambling
        (demo_raw_values\<lparr>INVERT_METRIC := False\<rparr>)
        0 ''/in/a.mp4'' demo_frames [[[0, 5]]] 30)))) =
     [SavezCompressed ''/out/a_depths.npz'' [[[0, 5]]],
      ExrWrite ''/out/a_depths_exr/frame_00000.exr'' 2 1 [[0, 5]],
      ImWrite ''/out/a_depth_png/frame_00000.png'' [[Some 0, Some 255]] 1] \<and>
   calls (fst (snd
     (save_outputs demo_env_scrambling
        (demo_raw_values\<lparr>INVERT_METRIC := True\<rparr>)
        0 ''/in/a.mp4'' demo_frames [[[0, 5]]] 30))) ! 1 =
     SaveVideoDepths [[[5, 0]]] ''/out/a_depth.mp4'' 30 True 18"
proof -
  let ?env = "demo_env_scrambling"
  let ?v = "demo_raw_values"
  have ne: "elements [[[0, 5]]] \<noteq> []" by (simp add: elements_def)
  have unset: "filter is_raw (calls (fst (snd
     (save_outputs ?env (?v\<lparr>INVERT_METRIC := False\<rparr>) 0 ''/in/a.mp4'' demo_frames [[[0, 5]]] 30)))) =
     [SavezCompressed ''/out/a_depths.npz'' [[[0, 5]]],
      ExrWrite ''/out/a_depths_exr/frame_00000.exr'' 2 1 [[0, 5]],
      ImWrite ''/out/a_depth_png/frame_00000.png'' [[Some 0, Some 255]] 1]"
    by (simp add: worker_defs demo_defs is_raw_def width_def pad5_0
          png_images_def png_pixel_def np_divide_def astype_uint_def trunc_zero_def)
  have vis: "calls (fst (snd
     (save_outputs ?env (?v\<lparr>INVERT_METRIC := True\<rparr>) 0 ''/in/a.mp4'' demo_frames [[[0, 5]]] 30))) ! 1 =
     SaveVideoDepths [[[5, 0]]] ''/out/a_depth.mp4'' 30 True 18"
    by (simp add: worker_defs demo_defs is_raw_def width_def pad5_0
          png_images_def png_pixel_def np_divide_def astype_uint_def trunc_zero_def)
  have "filter is_raw (calls (fst (snd
     (save_outputs ?env (?v\<lparr>INVERT_METRIC := True\<rparr>) 0 ''/in/a.mp4'' demo_frames [[[0, 5]]] 30)))) =
     filter is_raw (calls (fst (snd
     (save_outputs ?env (?v\<lparr>INVERT_METRIC := False\<rparr>) 0 ''/in/a.mp4'' demo_frames [[[0, 5]]] 30))))"
    using raw_artifacts_ignore_inversion [OF ne, where env = "?env" and v = "?v"] by blast
  with ne unset vis show ?thesis by simp
qed

subsection \<open>The loop\<close>

lemma notifications_concat: "notifications (concat xs) = concat (map notifications xs)"
  by (induction xs) (simp_all add: notifications_append)

lemma write_frames_silent: "notifications (snd (write_frames rs mk j xs)) = []"
  by (induction xs arbitrary: j) (simp_all add: split_beta split: option.splits)

lemma only_move_append: "only_move f a \<Longrightarrow> only_move f b \<Longrightarrow> only_move f (a @ b)"
  by (auto simp: only_move_def notifications_append)

lemma run_steps_only_move:
  "(\<And>st h. st \<in> set sts \<Longrightarrow> only_move f (fst (snd (st h)))) \<Longrightarrow>
     only_move f (fst (snd (run_steps sts h)))"
proof (induction sts arbitrary: h)
  case Nil
  then show ?case by (simp add: only_move_def)
next
  case (Cons st sts)
  obtain r a k where 1: "st h = (r, a, k)" by (cases "st h") auto
  have a: "only_move f a" using Cons.prems [of st h] 1 by simp
  have ih: "only_move f (fst (snd (run_steps sts k)))"
    by (rule Cons.IH) (simp add: Cons.prems)
  show ?case
    using 1 a ih by (cases r) (simp_all add: split_beta only_move_append)
qed

lemma step_src_silent: "notifications (snd (step_src env v i frames p fps)) = []"
  by (simp add: step_src_def)

lemma step_vis_silent: "notifications (fst (snd (step_vis env v i a p fps h))) = []"
  by (simp add: step_vis_def save_depth_video_def Let_def split: sum.splits)

lemma step_npz_silent: "notifications (snd (step_npz env v i p d)) = []"
  by (simp add: step_npz_def)

lemma step_exr_silent: "notifications (snd (step_exr env v i p d)) = []"
  by (simp add: step_exr_def write_frames_silent split_beta split: option.splits)

lemma step_png_silent: "notifications (snd (step_png env v i p d)) = []"
  by (simp add: step_png_def write_frames_silent split_beta split: option.splits sum.splits)

lemma step_resume_only_move: "only_move file_path (snd (step_resume env v i file_path))"
  by (simp add: step_resume_def only_move_def Let_def split: option.splits)

lemma silent_only_move: "notifications evs = [] \<Longrightarrow> only_move f evs"
  by (simp add: only_move_def)

lemma save_outputs_only_move:
  "only_move file_path (fst (snd (save_outputs env v i file_path frames depths fps)))"
  unfolding save_outputs_def
proof (rule run_steps_only_move)
  fix st h
  assume "st \<in> set (output_steps env v i file_path frames fps)"
  then consider p1 fps1 where "st = no_heap (step_src env v i frames p1 fps1)"
    | p2 where "st = step_vis env v i 0 p2 fps"
    | p3 where "st = reading 0 (step_npz env v i p3)"
    | p4 where "st = reading 0 (step_exr env v i p4)"
    | p5 where "st = reading 0 (step_png env v i p5)"
    | "st = no_heap (step_resume env v i file_path)"
    unfolding output_steps_def Let_def by auto
  then show "only_move file_path (fst (snd (st h)))"
  proof cases
    case 1
    then show ?thesis by (simp add: no_heap_def silent_only_move step_src_silent)
  next
    case 2
    then show ?thesis by (simp add: silent_only_move step_vis_silent)
  next
    case 3
    then show ?thesis by (simp add: reading_def split_beta silent_only_move step_npz_silent)
  next
    case 4
    then show ?thesis by (simp add: reading_def split_beta silent_only_move step_exr_silent)
  next
    case 5
    then show ?thesis by (simp add: reading_def split_beta silent_only_move step_png_silent)
  next
    case 6
    then show ?thesis by (simp add: no_heap_def step_resume_only_move)
  qed
qed


lemma only_move_no_progress: "only_move f evs \<Longrightarrow> filter is_progress (notifications evs) = []"
  by (auto simp: only_move_def is_progress_def filter_empty_conv)

lemma only_move_about: "only_move f evs \<Longrightarrow> n \<in> set (notifications evs) \<Longrightarrow> error_about f n"
  by (auto simp: only_move_def error_about_def)

lemma save_stage_progress:
  "filter is_progress (notifications (save_stage env v i f frames d fps)) = [PROGRESS_UPDATE (i + 1)]"
proof -
  obtain r evs h where s: "save_outputs env v i f frames d fps = (r, evs, h)"
    by (cases "save_outputs env v i f frames d fps") auto
  have "only_move f evs" using save_outputs_only_move [of f env v i frames d fps] s by simp
  then have "filter is_progress (notifications evs) = []" by (rule only_move_no_progress)
  then show ?thesis
    by (cases r) (simp_all add: save_stage_def s notifications_append is_progress_def)
qed

lemma save_stage_errors:
  assumes "n \<in> set (notifications (save_stage env v i f frames d fps))" and "is_error n"
  shows "error_about f n"
proof -
  obtain r evs h where s: "save_outputs env v i f frames d fps = (r, evs, h)"
    by (cases "save_outputs env v i f frames d fps") auto
  have om: "only_move f evs" using save_outputs_only_move [of f env v i frames d fps] s by simp
  have "n \<in> set (notifications evs) \<or> (\<exists>e. n = ERROR (SaveOutputsError (basename f) e))"
    using assms by (cases r) (auto simp: save_stage_def s notifications_append is_error_def)
  then show ?thesis using only_move_about [OF om] by (auto simp: error_about_def)
qed

lemma make_output_dir_silent: "notifications (snd (make_output_dir env v i)) = []"
  by (simp add: make_output_dir_def)

lemma process_file_unreadable:
  "try_read env v max_res f = Inl e \<Longrightarrow>
     process_file env v input_size max_res device tot i f =
       ([Put (STATUS_UPDATE (ProcessingFile (i + 1) tot (basename f))),
         Put (ERROR (ReadFramesError (basename f) e)), Put (PROGRESS_UPDATE (i + 1))], None)"
  by (simp add: process_file_def)

lemma process_file_cases:
  obtains (unreadable) e where "try_read env v max_res f = Inl e"
  | (unstackable) e where
      "process_file env v input_size max_res device tot i f =
         ([Put (STATUS_UPDATE (ProcessingFile (i + 1) tot (basename f)))], Some e)"
  | (inference) e where
      "process_file env v input_size max_res device tot i f =
         ([Put (STATUS_UPDATE (ProcessingFile (i + 1) tot (basename f))),
           Put (ERROR (InferenceError (basename f) e)), Put (PROGRESS_UPDATE (i + 1))], None)"
  | (no_dir) e evs where
      "process_file env v input_size max_res device tot i f =
         (Put (STATUS_UPDATE (ProcessingFile (i + 1) tot (basename f))) # evs, Some e)"
      "notifications evs = []"
  | (saved) evs frames depths fps where
      "process_file env v input_size max_res device tot i f =
         (Put (STATUS_UPDATE (ProcessingFile (i + 1) tot (basename f))) # evs
            @ save_stage env v i f frames depths fps, None)"
      "notifications evs = []"
proof (cases "try_read env v max_res f")
  case (Inl e)
  then show ?thesis by (rule unreadable)
next
  case (Inr fr)
  obtain frames afps where fr: "fr = (frames, afps)" by (cases fr) auto
  show ?thesis
  proof (cases "np_stack frames")
    case (Inl e)
    show ?thesis by (rule unstackable [of e]) (simp add: process_file_def Inr fr Inl)
  next
    case st: (Inr frames_array)
    show ?thesis
    proof (cases "infer_depths env v input_size device frames frames_array afps")
      case (Inl e)
      show ?thesis by (rule inference [of e]) (simp add: process_file_def Inr fr st Inl)
    next
      case inf: (Inr dp)
      obtain depths fps where dp: "dp = (depths, fps)" by (cases dp) auto
      obtain r evs where m: "make_output_dir env v i = (r, evs)"
        by (cases "make_output_dir env v i") auto
      have silent: "notifications evs = []" using make_output_dir_silent [of env v i] m by simp
      show ?thesis
      proof (cases r)
        case None
        show ?thesis
          by (rule saved [of evs frames depths fps])
             (simp_all add: process_file_def Inr fr st inf dp m None silent)
      next
        case (Some e)
        show ?thesis
          by (rule no_dir [of evs e]) (simp_all add: process_file_def Inr fr st inf dp m Some silent)
      qed
    qed
  qed
qed

lemma process_file_progress:
  assumes "process_file env v input_size max_res device tot i f = (evs, None)"
  shows "filter is_progress (notifications evs) = [PROGRESS_UPDATE (i + 1)]"
proof (cases rule: process_file_cases [where env=env and v=v and max_res=max_res and f=f and input_size=input_size and device=device and tot=tot and i=i])
  case (unreadable e)
  then show ?thesis
    using assms by (auto simp: process_file_unreadable is_progress_def)
next
  case (unstackable e)
  then show ?thesis using assms by simp
next
  case (inference e)
  then show ?thesis using assms by (auto simp: is_progress_def)
next
  case (no_dir e evs)
  then show ?thesis using assms by simp
next
  case (saved a frames depths fps)
  then show ?thesis
    using assms by (auto simp: notifications_append save_stage_progress is_progress_def)
qed

lemma process_file_errors:
  assumes "process_file env v input_size max_res device tot i f = (evs, r)"
    and "n \<in> set (notifications evs)" and "is_error n"
  shows "error_about f n"
proof (cases rule: process_file_cases [where env=env and v=v and max_res=max_res and f=f and input_size=input_size and device=device and tot=tot and i=i])
  case (unreadable e)
  then show ?thesis
    using assms by (auto simp: process_file_unreadable is_error_def error_about_def)
next
  case (unstackable e)
  then show ?thesis using assms by (auto simp: is_error_def)
next
  case (inference e)
  then show ?thesis using assms by (auto simp: is_error_def error_about_def)
next
  case (no_dir e a)
  then show ?thesis using assms by (auto simp: is_error_def)
next
  case (saved a frames depths fps)
  then show ?thesis
    using assms save_stage_errors [of n env v i f frames depths fps]
    by (auto simp: notifications_append is_error_def)
qed

text \<open>No exception leaves an iteration when the decoded frames stack and the
  output directory exists or can be created.\<close>

lemma process_file_contained:
  assumes "\<forall>frames fps. try_read env v max_res f = Inr (frames, fps) \<longrightarrow>
             frames \<noteq> [] \<and> (\<forall>a \<in> set frames. shape a = shape (hd frames))"
    and "path_exists env i (OUTPUT_DIR v) \<or> raises env i MakeOutputDir = None"
  shows "snd (process_file env v input_size max_res device tot i f) = None"
proof (cases "try_read env v max_res f")
  case (Inl e)
  then show ?thesis by (simp add: process_file_unreadable)
next
  case (Inr fr)
  obtain frames afps where fr: "fr = (frames, afps)" by (cases fr) auto
  have "frames \<noteq> [] \<and> (\<forall>a \<in> set frames. shape a = shape (hd frames))"
    using assms(1) Inr fr by blast
  then have st: "np_stack frames = Inr frames" using np_stackI by blast
  have "fst (make_output_dir env v i) = None"
    using assms(2) by (auto simp: make_output_dir_def)
  then obtain evs where m: "make_output_dir env v i = (None, evs)"
    by (cases "make_output_dir env v i") auto
  show ?thesis
    by (cases "infer_depths env v input_size device frames frames afps")
       (auto simp: process_file_def Inr fr st m)
qed


lemma process_files_run:
  assumes "\<forall>j < length files. \<not> stop_is_set env (i + j)"
    and "\<forall>j < length files.
           snd (process_file env v input_size max_res device tot (i + j) (files ! j)) = None"
  shows "process_files env v input_size max_res device tot i files =
           (concat (map (\<lambda>j. fst (process_file env v input_size max_res device tot (i + j)
                                     (files ! j))) [0..<length files]), None)"
  using assms
proof (induction files arbitrary: i)
  case Nil
  then show ?case by simp
next
  case (Cons f rest)
  have stop0: "\<not> stop_is_set env i" using Cons.prems(1) by auto
  obtain evs where pf: "process_file env v input_size max_res device tot i f = (evs, None)"
    using Cons.prems(2) by (cases "process_file env v input_size max_res device tot i f") auto
  have ih: "process_files env v input_size max_res device tot (Suc i) rest =
           (concat (map (\<lambda>j. fst (process_file env v input_size max_res device tot (Suc i + j)
                                     (rest ! j))) [0..<length rest]), None)"
  proof (rule Cons.IH)
    show "\<forall>j < length rest. \<not> stop_is_set env (Suc i + j)"
      using Cons.prems(1) by auto
    show "\<forall>j < length rest.
           snd (process_file env v input_size max_res device tot (Suc i + j) (rest ! j)) = None"
      using Cons.prems(2) by auto
  qed
  have idx: "[0..<length (f # rest)] = 0 # map Suc [0..<length rest]"
    by (simp add: upt_conv_Cons map_Suc_upt del: upt_Suc)
  show ?case
    unfolding idx by (simp add: stop0 pf ih comp_def)
qed

lemma concat_map_empty: "\<forall>x \<in> set xs. g x = [] \<Longrightarrow> concat (map g xs) = []"
  by (induction xs) simp_all

lemma concat_map_single:
  assumes "k < n" and "\<forall>j < n. j \<noteq> k \<longrightarrow> g j = []"
  shows "concat (map g [0..<n]) = g k"
proof -
  have split: "[0..<n] = [0..<k] @ k # [Suc k..<n]"
    using assms(1) by (metis le_add1 less_imp_add_positive upt_add_eq_append upt_conv_Cons plus_nat.add_0)
  have a: "\<forall>j \<in> set [0..<k]. g j = []" using assms by auto
  have b: "\<forall>j \<in> set [Suc k..<n]. g j = []" using assms by auto
  show ?thesis
    unfolding split map_append list.map concat_append concat.simps
      concat_map_empty [OF a] concat_map_empty [OF b] by simp
qed

lemma error_about_is_error: "error_about f n \<Longrightarrow> is_error n"
  by (auto simp: error_about_def is_error_def split: notification.splits error_text.splits)

lemma error_about_same: "error_about f n \<Longrightarrow> error_about g n \<Longrightarrow> basename f = basename g"
  by (auto simp: error_about_def split: notification.splits error_text.splits)

lemma prepare_continues:
  "prepare env v = (evs0, Inr x) \<Longrightarrow> evs0 = [Put (STATUS_UPDATE LoadingModel)]"
  by (auto simp: prepare_def split: sum.splits option.splits prod.splits)

text \<open>
  What the loop does when nothing cuts it short: the batch reaches the loop,
  is not stopped, every decoded frame sequence stacks and the output
  directory exists or can be created.  If file \<open>k\<close> fails to decode,
  the worker returns, the progress updates on the queue are exactly
  \<open>1, ..., N\<close>, and exactly one error notification names file \<open>k\<close>: the
  failure to read its frames.
\<close>

lemma unreadable_file_contained:
  assumes prep: "prepare env v = (evs0, Inr (files, input_size, max_res, device))"
    and k: "k < length files"
    and dist: "distinct (map basename files)"
    and nostop: "\<forall>i < length files. \<not> stop_is_set env i"
    and bad: "try_read env v max_res (files ! k) = Inl e"
    and stackable: "\<forall>i < length files. \<forall>frames fps.
        try_read env v max_res (files ! i) = Inr (frames, fps) \<longrightarrow>
        frames \<noteq> [] \<and> (\<forall>a \<in> set frames. shape a = shape (hd frames))"
    and creatable: "\<forall>i < length files.
        path_exists env i (OUTPUT_DIR v) \<or> raises env i MakeOutputDir = None"
  shows "\<exists>trace. process_videos_threaded env v = (trace, Returns) \<and>
           filter is_progress (notifications trace)
             = map (\<lambda>i. PROGRESS_UPDATE (i + 1)) [0..<length files] \<and>
           filter (error_about (files ! k)) (notifications trace)
             = [ERROR (ReadFramesError (basename (files ! k)) e)]"
proof -
  let ?N = "length files"
  define seg where
    "seg = (\<lambda>j. fst (process_file env v input_size max_res device ?N j (files ! j)))"
  define body where "body = concat (map seg [0..<?N])"
  define trace where
    "trace = evs0 @ Put (SET_MAX ?N) # body @ [Put (THREAD_DONE Completed)]"
  have caught: "\<forall>i < length files.
        snd (process_file env v input_size max_res device (length files) i (files ! i)) = None"
  proof (intro allI impI)
    fix i assume i: "i < length files"
    have s: "\<forall>frames fps. try_read env v max_res (files ! i) = Inr (frames, fps) \<longrightarrow>
               frames \<noteq> [] \<and> (\<forall>a \<in> set frames. shape a = shape (hd frames))"
      by (rule mp [OF stackable [THEN spec] i])
    have c: "path_exists env i (OUTPUT_DIR v) \<or> raises env i MakeOutputDir = None"
      by (rule mp [OF creatable [THEN spec] i])
    show "snd (process_file env v input_size max_res device (length files) i (files ! i)) = None"
      using s c by (rule process_file_contained)
  qed
  have e0: "evs0 = [Put (STATUS_UPDATE LoadingModel)]" using prep by (rule prepare_continues)
  have loop: "process_files env v input_size max_res device ?N 0 files = (body, None)"
    using process_files_run [of files env 0 v input_size max_res device ?N] nostop caught
    by (simp add: body_def seg_def)
  have run: "process_videos_threaded env v = (trace, Returns)"
    by (simp add: process_videos_threaded_def prep loop trace_def)
  have segj: "process_file env v input_size max_res device ?N j (files ! j) = (seg j, None)"
    if "j < ?N" for j
    using caught that by (simp add: seg_def prod_eq_iff)
  have prog_seg: "filter is_progress (notifications (seg j)) = [PROGRESS_UPDATE (j + 1)]"
    if "j < ?N" for j
    using segj [OF that] by (rule process_file_progress)
  have "filter is_progress (notifications body)
          = concat (map (\<lambda>j. filter is_progress (notifications (seg j))) [0..<?N])"
    by (simp add: body_def notifications_concat filter_concat comp_def)
  also have "\<dots> = concat (map (\<lambda>j. [PROGRESS_UPDATE (j + 1)]) [0..<?N])"
    using prog_seg by (intro arg_cong [where f = concat] map_cong) simp_all
  also have "\<dots> = map (\<lambda>i. PROGRESS_UPDATE (i + 1)) [0..<?N]"
    by (induction ?N) simp_all
  finally have prog_body: "filter is_progress (notifications body)
          = map (\<lambda>i. PROGRESS_UPDATE (i + 1)) [0..<?N]" .
  have prog: "filter is_progress (notifications trace)
          = map (\<lambda>i. PROGRESS_UPDATE (i + 1)) [0..<?N]"
    by (simp add: trace_def e0 notifications_append prog_body is_progress_def)
  have other: "filter (error_about (files ! k)) (notifications (seg j)) = []"
    if "j < ?N" "j \<noteq> k" for j
  proof -
    have "\<not> error_about (files ! k) n" if n: "n \<in> set (notifications (seg j))" for n
    proof
      assume a: "error_about (files ! k) n"
      then have "is_error n" by (rule error_about_is_error)
      with segj [OF \<open>j < ?N\<close>] n have "error_about (files ! j) n" by (rule process_file_errors)
      with a have "basename (files ! k) = basename (files ! j)" by (rule error_about_same)
      then have eq: "map basename files ! k = map basename files ! j"
        using k \<open>j < ?N\<close> by simp
      have "(map basename files ! k = map basename files ! j) = (k = j)"
        using dist by (rule nth_eq_iff_index_eq) (simp_all add: k \<open>j < ?N\<close>)
      with eq have "k = j" by (simp only:)
      with \<open>j \<noteq> k\<close> show False by simp
    qed
    then show ?thesis by (simp add: filter_empty_conv)
  qed
  have segk: "seg k = [Put (STATUS_UPDATE (ProcessingFile (k + 1) ?N (basename (files ! k)))),
         Put (ERROR (ReadFramesError (basename (files ! k)) e)), Put (PROGRESS_UPDATE (k + 1))]"
    by (simp add: seg_def process_file_unreadable [OF bad])
  have mine: "filter (error_about (files ! k)) (notifications (seg k))
                = [ERROR (ReadFramesError (basename (files ! k)) e)]"
    by (simp add: segk error_about_def)
  have "filter (error_about (files ! k)) (notifications body)
          = concat (map (\<lambda>j. filter (error_about (files ! k)) (notifications (seg j))) [0..<?N])"
    by (simp add: body_def notifications_concat filter_concat comp_def)
  also have "\<dots> = filter (error_about (files ! k)) (notifications (seg k))"
    using k other by (intro concat_map_single) simp_all
  finally have err_body: "filter (error_about (files ! k)) (notifications body)
          = [ERROR (ReadFramesError (basename (files ! k)) e)]"
    using mine by simp
  have err: "filter (error_about (files ! k)) (notifications trace)
          = [ERROR (ReadFramesError (basename (files ! k)) e)]"
    by (simp add: trace_def e0 notifications_append err_body error_about_def)
  show ?thesis using run prog err by blast
qed



lemma unreadable_file_contained_example:
  "prepare demo_env demo_folder_values =
     ([Put (STATUS_UPDATE LoadingModel)],
      Inr ([''/in/a.mp4'', ''/in/b.MKV'', ''/in/c.avi''], 518, 1280, ''cpu'')) \<and>
   try_read demo_env demo_folder_values 1280 ''/in/b.MKV''
     = Inl (Exc ''moov atom not found'') \<and>
   (\<exists>trace.
      process_videos_threaded demo_env demo_folder_values
        = (trace, Returns) \<and>
      filter is_progress (notifications trace)
        = [PROGRESS_UPDATE 1, PROGRESS_UPDATE 2, PROGRESS_UPDATE 3] \<and>
      filter (error_about ''/in/b.MKV'') (notifications trace)
        = [ERROR (ReadFramesError ''b.MKV'' (Exc ''moov atom not found''))])"
proof -
  let ?v = "demo_folder_values"
  let ?files = "[''/in/a.mp4'', ''/in/b.MKV'', ''/in/c.avi'']"
  have prep: "prepare demo_env ?v =
     ([Put (STATUS_UPDATE LoadingModel)], Inr (?files, 518, 1280, ''cpu''))"
    by (simp add: worker_defs demo_defs)
  have k: "1 < length ?files" by simp
  have dist: "distinct (map basename ?files)" by (simp add: basename_def sep_def)
  have nostop: "\<forall>i < length ?files. \<not> stop_is_set demo_env i" by (simp add: demo_env_def)
  have bad: "try_read demo_env ?v 1280 (?files ! 1) = Inl (Exc ''moov atom not found'')"
    by (simp add: try_read_def py_int_def strip_def is_space_def is_digit_def demo_defs)
  have stackable: "\<forall>i < length ?files. \<forall>frames fps.
        try_read demo_env ?v 1280 (?files ! i) = Inr (frames, fps) \<longrightarrow>
        frames \<noteq> [] \<and> (\<forall>a \<in> set frames. shape a = shape (hd frames))"
  proof (intro allI impI)
    fix i frames fps
    assume i: "i < length ?files"
      and r: "try_read demo_env ?v 1280 (?files ! i) = Inr (frames, fps)"
    have ok: "demo_frames \<noteq> [] \<and> (\<forall>a \<in> set demo_frames. shape a = shape (hd demo_frames))"
      by (simp add: demo_frames_def)
    have rd: "try_read demo_env ?v 1280 p =
                (if p = ''/in/b.MKV'' then Inl (Exc ''moov atom not found'')
                 else Inr (demo_frames, 30))" for p
      by (simp add: try_read_def py_int_def strip_def is_space_def is_digit_def
            demo_values_def demo_folder_values_def demo_env_def)
    have fr: "frames = demo_frames"
      using r unfolding rd by (simp split: if_splits)
    show "frames \<noteq> [] \<and> (\<forall>a \<in> set frames. shape a = shape (hd frames))"
      unfolding fr by (rule ok)
  qed
  have creatable: "\<forall>i < length ?files.
        path_exists demo_env i (OUTPUT_DIR ?v) \<or> raises demo_env i MakeOutputDir = None"
    by (simp add: demo_env_def)
  have "\<exists>trace. process_videos_threaded demo_env ?v = (trace, Returns) \<and>
           filter is_progress (notifications trace)
             = map (\<lambda>i. PROGRESS_UPDATE (i + 1)) [0..<length ?files] \<and>
           filter (error_about (?files ! 1)) (notifications trace)
             = [ERROR (ReadFramesError (basename (?files ! 1)) (Exc ''moov atom not found''))]"
    using prep k dist nostop bad stackable creatable by (rule unreadable_file_contained)
  then have "\<exists>trace. process_videos_threaded demo_env ?v = (trace, Returns) \<and>
      filter is_progress (notifications trace)
        = [PROGRESS_UPDATE 1, PROGRESS_UPDATE 2, PROGRESS_UPDATE 3] \<and>
      filter (error_about ''/in/b.MKV'') (notifications trace)
        = [ERROR (ReadFramesError ''b.MKV'' (Exc ''moov atom not found''))]"
    by (simp add: basename_def sep_def upt_rec numeral_2_eq_2 numeral_3_eq_3)
  with prep bad show ?thesis by simp
qed

end
